theory Spec2Isabelle
  imports Main "HOL-Library.Sublist"
begin

section \<open>JavaScript strings\<close>

text \<open>
  A string of the program is modelled as a \<^typ>\<open>string\<close>: a list of code units, each
  below 256.  On such strings the character classes of the regular expressions of
  \<^verbatim>\<open>skillsClient.ts\<close> and \<^verbatim>\<open>installedProvider.ts\<close> are the following:
  \<^verbatim>\<open>\s\<close> (and what \<^verbatim>\<open>trim()\<close> strips) is TAB, LF, VT, FF, CR, SPACE and NBSP;
  \<^verbatim>\<open>.\<close> is everything but the line terminators LF and CR;
  \<^verbatim>\<open>\w\<close> is a letter, a digit or the underscore.
\<close>

definition isSpace :: "char \<Rightarrow> bool" where
  "isSpace c = (c \<in> {CHR 0x09, CHR 0x0A, CHR 0x0B, CHR 0x0C, CHR 0x0D, CHR 0x20, CHR 0xA0})"

definition isLineTerminator :: "char \<Rightarrow> bool" where
  "isLineTerminator c = (c = CHR 0x0A \<or> c = CHR 0x0D)"

definition isWordChar :: "char \<Rightarrow> bool" where
  "isWordChar c =
     (let n = (of_char c :: nat) in
        (97 \<le> n \<and> n \<le> 122) \<or> (65 \<le> n \<and> n \<le> 90) \<or> (48 \<le> n \<and> n \<le> 57) \<or> n = 95)"

text \<open>\<^verbatim>\<open>s.trim()\<close>\<close>

definition trim :: "string \<Rightarrow> string" where
  "trim s = rev (dropWhile isSpace (rev (dropWhile isSpace s)))"

text \<open>\<^verbatim>\<open>s.startsWith(p)\<close> and \<^verbatim>\<open>s.endsWith(p)\<close>\<close>

definition startsWith :: "string \<Rightarrow> string \<Rightarrow> bool" where
  "startsWith s p = (take (length p) s = p)"

definition endsWith :: "string \<Rightarrow> string \<Rightarrow> bool" where
  "endsWith s p = (length p \<le> length s \<and> drop (length s - length p) s = p)"

text \<open>\<^verbatim>\<open>s.split(d)\<close> for a separator \<open>d\<close> of one character: never the empty list.\<close>

fun split :: "char \<Rightarrow> string \<Rightarrow> string list" where
  "split d [] = [[]]"
| "split d (c # cs) =
     (if c = d then [] # split d cs
      else (case split d cs of x # xs \<Rightarrow> (c # x) # xs | [] \<Rightarrow> [[c]]))"

text \<open>\<^verbatim>\<open>s.lastIndexOf(d)\<close>: the index of the last occurrence, or -1.\<close>

fun lastIndexOf :: "string \<Rightarrow> char \<Rightarrow> int" where
  "lastIndexOf [] d = -1"
| "lastIndexOf (c # cs) d =
     (let r = lastIndexOf cs d in
        if r \<ge> 0 then r + 1 else if c = d then 0 else -1)"

text \<open>\<^verbatim>\<open>s.substring(a, b)\<close>: both ends are clamped to the string, and swapped when \<open>a > b\<close>.\<close>

definition substring :: "string \<Rightarrow> int \<Rightarrow> int \<Rightarrow> string" where
  "substring s a b =
     (let n = int (length s);
          a' = max 0 (min a n);
          b' = max 0 (min b n);
          lo = min a' b';
          hi = max a' b'
      in take (nat (hi - lo)) (drop (nat lo) s))"

text \<open>The decimal rendering of a number in a template string.\<close>

fun digits :: "nat \<Rightarrow> nat \<Rightarrow> string" where
  "digits 0 n = []"
| "digits (Suc f) n =
     (if n < 10 then [''0123456789'' ! n]
      else digits f (n div 10) @ [''0123456789'' ! (n mod 10)])"

definition showNat :: "nat \<Rightarrow> string" where
  "showNat n = digits (Suc n) n"

section \<open>Data model (\<^verbatim>\<open>types.ts\<close>)\<close>

record SkillRepository =
  owner :: string
  repo :: string
  path :: string
  branch :: string
  singleSkill :: "bool option"

record SkillMetadata =
  md_name :: string
  md_description :: string
  md_license :: "string option"
  md_compatibility :: "string option"
  md_allowedTools :: "string option"

record Skill =
  name :: string
  description :: string
  license :: "string option"
  compatibility :: "string option"
  source :: SkillRepository
  skillPath :: string
  fullContent :: "string option"
  bodyContent :: "string option"

record 'a CacheEntry =
  data :: 'a
  timestamp :: int

datatype item_type = Blob | Tree

record GitTreeItem =
  item_path :: string
  item_mode :: string
  item_type :: item_type
  item_sha :: string

record GitTreeResponse =
  tree_sha :: string
  tree_url :: string
  tree :: "GitTreeItem list"
  truncated :: bool

section \<open>Cache layer\<close>

text \<open>
  The client's mutable state that the cache reads and writes: the map \<^verbatim>\<open>this.cache\<close>,
  the clock \<^verbatim>\<open>Date.now()\<close> in milliseconds, and the setting \<^verbatim>\<open>cacheTimeout\<close> in seconds,
  which is read from the configuration at every lookup.
\<close>

record 'v store =
  cache :: "string \<rightharpoonup> 'v CacheEntry"
  now :: int
  cacheTimeout :: int

definition getFromCache :: "('v, 'z) store_scheme \<Rightarrow> string \<Rightarrow> 'v option \<times> ('v, 'z) store_scheme" where
  "getFromCache w key =
     (case cache w key of
        None \<Rightarrow> (None, w)
      | Some entry \<Rightarrow>
          (let timeout = cacheTimeout w * 1000 in
             if now w - timestamp entry > timeout
             then (None, w\<lparr>cache := (cache w)(key := None)\<rparr>)
             else (Some (data entry), w)))"

definition setCache :: "('v, 'z) store_scheme \<Rightarrow> string \<Rightarrow> 'v \<Rightarrow> ('v, 'z) store_scheme" where
  "setCache w key d = w\<lparr>cache := (cache w)(key \<mapsto> \<lparr>data = d, timestamp = now w\<rparr>)\<rparr>"

definition clearCache :: "('v, 'z) store_scheme \<Rightarrow> ('v, 'z) store_scheme" where
  "clearCache w = w\<lparr>cache := Map.empty\<rparr>"

text \<open>The keys under which the resolver stores a listing and a raw file.\<close>

definition treeKey :: "string \<Rightarrow> string \<Rightarrow> string \<Rightarrow> string" where
  "treeKey ow rp br = ''tree:'' @ ow @ ''/'' @ rp @ ''@'' @ br"

definition rawKey :: "string \<Rightarrow> string \<Rightarrow> string \<Rightarrow> string \<Rightarrow> string" where
  "rawKey ow rp pa br = ''raw:'' @ ow @ ''/'' @ rp @ ''/'' @ pa @ ''@'' @ br"

datatype resource = Listing string string string | RawFile string string string string

fun cacheKey :: "resource \<Rightarrow> string" where
  "cacheKey (Listing ow rp br) = treeKey ow rp br"
| "cacheKey (RawFile ow rp br pa) = rawKey ow rp pa br"

text \<open>
  Names under which two resources cannot share a key: no slash in the owner or, for a raw
  file, in the repository name, and no \<open>@\<close> in the branch.
\<close>

definition wellNamed :: "resource \<Rightarrow> bool" where
  "wellNamed r =
     (case r of
        Listing ow rp br \<Rightarrow> CHR ''/'' \<notin> set ow \<and> CHR ''@'' \<notin> set br
      | RawFile ow rp br pa \<Rightarrow>
          CHR ''/'' \<notin> set ow \<and> CHR ''/'' \<notin> set rp \<and> CHR ''@'' \<notin> set br)"

section \<open>Manifest parser (\<^verbatim>\<open>parseSkillMd\<close>, \<^verbatim>\<open>parseYamlFrontmatter\<close>)\<close>

text \<open>\<^verbatim>\<open>\r?\n\<close> at the head of a string: what follows it.\<close>

fun eol :: "string \<Rightarrow> string option" where
  "eol [] = None"
| "eol (c # cs) =
     (if c = CHR 0x0A then Some cs
      else if c = CHR 0x0D then
        (case cs of [] \<Rightarrow> None | d # ds \<Rightarrow> if d = CHR 0x0A then Some ds else None)
      else None)"

text \<open>\<^verbatim>\<open>---\<close> at the head of a string: what follows it.\<close>

definition dashes :: "string \<Rightarrow> string option" where
  "dashes s = (if startsWith s ''---'' then Some (drop 3 s) else None)"

text \<open>
  \<^verbatim>\<open>([\s\S]*?)\r?\n---\r?\n([\s\S]*)$\<close>: the lazy group stops at the first position where
  the closing delimiter matches; the second group is all the rest.
\<close>

definition closeDelim :: "string \<Rightarrow> string option" where
  "closeDelim s = Option.bind (Option.bind (eol s) dashes) eol"

fun frontmatterEnd :: "string \<Rightarrow> (string \<times> string) option" where
  "frontmatterEnd [] = None"
| "frontmatterEnd (c # cs) =
     (case closeDelim (c # cs) of
        Some body \<Rightarrow> Some ([], body)
      | None \<Rightarrow> map_option (\<lambda>(y, b). (c # y, b)) (frontmatterEnd cs))"

text \<open>\<^verbatim>\<open>content.match(/^---\r?\n([\s\S]*?)\r?\n---\r?\n([\s\S]*)$/)\<close>: groups 1 and 2.\<close>

definition frontmatterMatch :: "string \<Rightarrow> (string \<times> string) option" where
  "frontmatterMatch content = Option.bind (Option.bind (dashes content) eol) frontmatterEnd"

text \<open>
  \<^verbatim>\<open>line.match(/^(\w+(?:-\w+)*):\s*(.*)$/)\<close>.  \<open>scanKey\<close> reads the key and the colon;
  the greedy \<^verbatim>\<open>\s*\<close> then takes all leading white space, and \<^verbatim>\<open>(.*)$\<close> has to reach
  the end of the line, which it cannot when a line terminator (a CR) is left.
\<close>

fun scanKey :: "string \<Rightarrow> (string \<times> string) option" where
  "scanKey [] = None"
| "scanKey [c] = None"
| "scanKey (c # d # ds) =
     (if \<not> isWordChar c then None
      else if d = CHR '':'' then Some ([c], ds)
      else if d = CHR ''-'' then map_option (\<lambda>(k, r). (c # d # k, r)) (scanKey ds)
      else map_option (\<lambda>(k, r). (c # k, r)) (scanKey (d # ds)))"

definition keyMatch :: "string \<Rightarrow> (string \<times> string) option" where
  "keyMatch line =
     (case scanKey line of
        None \<Rightarrow> None
      | Some (k, rest) \<Rightarrow>
          (let v = dropWhile isSpace rest
           in if list_ex isLineTerminator v then None else Some (k, v)))"

definition emptyMetadata :: SkillMetadata where
  "emptyMetadata = \<lparr>md_name = [], md_description = [], md_license = None,
     md_compatibility = None, md_allowedTools = None\<rparr>"

definition setMetadataValue :: "SkillMetadata \<Rightarrow> string \<Rightarrow> string \<Rightarrow> SkillMetadata" where
  "setMetadataValue m key val =
     (if key = ''name'' then m\<lparr>md_name := val\<rparr>
      else if key = ''description'' then m\<lparr>md_description := val\<rparr>
      else if key = ''license'' then m\<lparr>md_license := Some val\<rparr>
      else if key = ''compatibility'' then m\<lparr>md_compatibility := Some val\<rparr>
      else if key = ''allowed-tools'' then m\<lparr>md_allowedTools := Some val\<rparr>
      else m)"

text \<open>
  The state of the loop over the header lines: the metadata, \<^verbatim>\<open>currentKey\<close> and
  \<^verbatim>\<open>multilineValue\<close>.  A string is true in a condition when it is not empty.
\<close>

type_synonym scan_state = "SkillMetadata \<times> string \<times> string"

definition commitMultiline :: "scan_state \<Rightarrow> SkillMetadata" where
  "commitMultiline st =
     (case st of (m, currentKey, multilineValue) \<Rightarrow>
        if currentKey \<noteq> [] \<and> multilineValue \<noteq> []
        then setMetadataValue m currentKey (trim multilineValue) else m)"

definition frontmatterStep :: "scan_state \<Rightarrow> string \<Rightarrow> scan_state" where
  "frontmatterStep st line =
     (case st of (m, currentKey, multilineValue) \<Rightarrow>
        (case keyMatch line of
           Some (k, v) \<Rightarrow>
             (let m1 = commitMultiline st;
                  val = trim v
              in if val \<noteq> [] then (setMetadataValue m1 k val, [], [])
                 else (m1, k, []))
         | None \<Rightarrow>
             if currentKey \<noteq> [] \<and> startsWith line ''  ''
             then (m, currentKey, multilineValue @ trim line @ '' '')
             else st))"

definition parseYamlFrontmatter :: "string \<Rightarrow> SkillMetadata" where
  "parseYamlFrontmatter yaml =
     commitMultiline (foldl frontmatterStep (emptyMetadata, [], []) (split (CHR 0x0A) yaml))"

definition parseSkillMd :: "string \<Rightarrow> SkillMetadata \<times> string" where
  "parseSkillMd content =
     (case frontmatterMatch content of
        None \<Rightarrow> (emptyMetadata, content)
      | Some (yamlContent, body) \<Rightarrow> (parseYamlFrontmatter yamlContent, body))"

section \<open>Manifest parser of the installed-skills scan (\<^verbatim>\<open>parseSkillMdMetadata\<close>)\<close>

text \<open>\<^verbatim>\<open>content.match(/^---\r?\n([\s\S]*?)\r?\n---/)\<close>: group 1.\<close>

fun yamlBlock :: "string \<Rightarrow> string option" where
  "yamlBlock [] = None"
| "yamlBlock (c # cs) =
     (case Option.bind (eol (c # cs)) dashes of
        Some _ \<Rightarrow> Some []
      | None \<Rightarrow> map_option ((#) c) (yamlBlock cs))"

definition frontmatterMatchInstalled :: "string \<Rightarrow> string option" where
  "frontmatterMatchInstalled content = Option.bind (Option.bind (dashes content) eol) yamlBlock"

text \<open>
  \<^verbatim>\<open>\s*(.+)$\<close> under the flag \<^verbatim>\<open>m\<close>, right after the colon.  The greedy \<^verbatim>\<open>\s*\<close> runs over
  white space and line ends alike.  If a character is left after it, the group is the rest
  of that line.  If the white space runs to the end of the text, the match backtracks to the
  last white-space character that is no line terminator, and the group is that character.
\<close>

definition valueM :: "string \<Rightarrow> string option" where
  "valueM rest =
     (let v = dropWhile isSpace rest in
        if v \<noteq> [] then Some (takeWhile (\<lambda>c. \<not> isLineTerminator c) v)
        else (case filter (\<lambda>c. \<not> isLineTerminator c) rest of
                [] \<Rightarrow> None
              | x # xs \<Rightarrow> Some [last (x # xs)]))"

text \<open>
  \<^verbatim>\<open>yaml.match(/^name:\s*(.+)$/m)\<close> is \<open>searchKeyM ''name:'' True yaml\<close>: the first position at
  the start of the text or right after a line terminator where the literal and then the
  value match.  The flag says whether the position is such a start.
\<close>

fun searchKeyM :: "string \<Rightarrow> bool \<Rightarrow> string \<Rightarrow> string option" where
  "searchKeyM lit b [] = None"
| "searchKeyM lit b (c # cs) =
     (case (if b \<and> startsWith (c # cs) lit then valueM (drop (length lit) (c # cs)) else None) of
        Some g \<Rightarrow> Some g
      | None \<Rightarrow> searchKeyM lit (isLineTerminator c) cs)"

text \<open>The partial metadata: the name and the description, each set or not.\<close>

definition parseSkillMdMetadata :: "string \<Rightarrow> string option \<times> string option" where
  "parseSkillMdMetadata content =
     (case frontmatterMatchInstalled content of
        None \<Rightarrow> (None, None)
      | Some yaml \<Rightarrow>
          (map_option trim (searchKeyM ''name:'' True yaml),
           map_option trim (searchKeyM ''description:'' True yaml)))"

section \<open>Installed-skills scan (\<^verbatim>\<open>scanInstalledSkills\<close>)\<close>

record InstalledSkill =
  inst_name :: string
  inst_description :: string
  location :: string
  installedAt :: string

text \<open>
  The host's file system as the scan sees it: the first workspace folder, if any; the
  entries (name and \<^verbatim>\<open>FileType\<close>, where a directory is 2) of an installation root or the
  failure of \<^verbatim>\<open>readDirectory\<close>; the decoded text of \<^verbatim>\<open>SKILL.md\<close> in a subdirectory of a
  root or the failure of \<^verbatim>\<open>readFile\<close>; and the time stamp \<^verbatim>\<open>new Date().toISOString()\<close>.
\<close>

record host_fs =
  workspaceFolder :: "string option"
  readDirectory :: "string \<Rightarrow> string + (string \<times> nat) list"
  readSkillMd :: "string \<Rightarrow> string \<Rightarrow> string + string"
  isoNow :: string

definition locations :: "string list" where
  "locations = [''.github/skills'', ''.claude/skills'']"

definition installedEntry :: "host_fs \<Rightarrow> string \<Rightarrow> string \<times> nat \<Rightarrow> InstalledSkill option" where
  "installedEntry fs loc e =
     (case e of (nm, ty) \<Rightarrow>
        if ty = 2 then
          (case readSkillMd fs loc nm of
             Inl _ \<Rightarrow> None
           | Inr contentStr \<Rightarrow>
               (case parseSkillMdMetadata contentStr of (mname, mdesc) \<Rightarrow>
                  Some \<lparr>inst_name = (case mname of Some n \<Rightarrow> if n \<noteq> [] then n else nm | None \<Rightarrow> nm),
                        inst_description =
                          (case mdesc of Some d \<Rightarrow> if d \<noteq> [] then d else ''No description available''
                           | None \<Rightarrow> ''No description available''),
                        location = loc @ ''/'' @ nm,
                        installedAt = isoNow fs\<rparr>))
        else None)"

definition scanInstalledSkills :: "host_fs \<Rightarrow> InstalledSkill list" where
  "scanInstalledSkills fs =
     (case workspaceFolder fs of
        None \<Rightarrow> []
      | Some _ \<Rightarrow>
          concat (map (\<lambda>loc. case readDirectory fs loc of
                                Inl _ \<Rightarrow> []
                              | Inr entries \<Rightarrow> List.map_filter (installedEntry fs loc) entries)
                      locations))"

section \<open>Repository resolver and aggregator (\<^verbatim>\<open>GitHubSkillsClient\<close>)\<close>

text \<open>
  A value in the cache is a listing or the text of a raw file.  The two kinds of key start
  with different letters, so a listing key never holds a text and a raw key never holds a
  listing; where the model has to say what happens otherwise, the operation fails.
\<close>

datatype cached = CachedTree GitTreeResponse | CachedRaw string

text \<open>
  What \<^verbatim>\<open>fetch\<close> gives: the promise rejects, or there is a response with its status, the two
  rate-limit headers, and a body, whose reading (\<^verbatim>\<open>json()\<close>, \<^verbatim>\<open>text()\<close>) can fail too.  An
  error is kept as the text that a template string makes of it.
\<close>

record response_head =
  ok :: bool
  status :: nat
  statusText :: string
  ratelimit_remaining :: "string option"
  ratelimit_reset :: "string option"

datatype 'b fetched = Rejected string | Responded response_head "string + 'b"

text \<open>
  The network and the host: the answer of the listing endpoint to a URL and a bearer token,
  the answer of the raw-content host to a URL, and the host's rendering of a time of day
  (\<^verbatim>\<open>toLocaleTimeString\<close>; no time when the date is invalid).
\<close>

record remote =
  api :: "string \<Rightarrow> string option \<Rightarrow> GitTreeResponse fetched"
  rawHost :: "string \<Rightarrow> string fetched"
  localeTime :: "int option \<Rightarrow> string"

text \<open>
  The state of the client: the cache with the clock and the timeout, the configured token,
  and what the client has done so far: the URLs requested, the warnings shown to the user,
  the lines written to the console.  An operation reads the clock and does not advance it.
\<close>

record client = "cached store" +
  githubToken :: string
  requests :: "string list"
  warnings :: "string list"
  console :: "string list"

definition BASE_URL :: string where
  "BASE_URL = ''https://api.github.com''"

definition RAW_URL :: string where
  "RAW_URL = ''https://raw.githubusercontent.com''"

text \<open>\<^verbatim>\<open>parseInt(s)\<close>: nothing when the result is NaN.\<close>

definition digitOf :: "char \<Rightarrow> nat option" where
  "digitOf c =
     (let n = (of_char c :: nat) in
        if 48 \<le> n \<and> n \<le> 57 then Some (n - 48)
        else if 97 \<le> n \<and> n \<le> 122 then Some (n - 87)
        else if 65 \<le> n \<and> n \<le> 90 then Some (n - 55)
        else None)"

definition isDigitIn :: "nat \<Rightarrow> char \<Rightarrow> bool" where
  "isDigitIn radix c = (case digitOf c of Some v \<Rightarrow> v < radix | None \<Rightarrow> False)"

definition parseInt :: "string \<Rightarrow> int option" where
  "parseInt s =
     (let t = dropWhile isSpace s;
          neg = startsWith t ''-'';
          u = (if startsWith t ''-'' \<or> startsWith t ''+'' then drop 1 t else t);
          hex = (startsWith u ''0x'' \<or> startsWith u ''0X'');
          radix = (if hex then 16 else 10);
          ds = takeWhile (isDigitIn radix) (if hex then drop 2 u else u);
          n = foldl (\<lambda>a c. a * radix + (case digitOf c of Some v \<Rightarrow> v | None \<Rightarrow> 0)) 0 ds
      in if ds = [] then None else Some (if neg then - int n else int n))"

definition checkRateLimit :: "remote \<Rightarrow> client \<Rightarrow> response_head \<Rightarrow> client" where
  "checkRateLimit net w h =
     (case ratelimit_remaining h of
        None \<Rightarrow> w
      | Some remaining \<Rightarrow>
          if remaining \<noteq> [] \<and> (case parseInt remaining of Some n \<Rightarrow> n < 10 | None \<Rightarrow> False)
          then
            (let resetDate =
                   (case ratelimit_reset h of
                      None \<Rightarrow> Some (now w)
                    | Some reset \<Rightarrow>
                        if reset \<noteq> [] then map_option (\<lambda>n. n * 1000) (parseInt reset)
                        else Some (now w))
             in w\<lparr>warnings := warnings w @
                   [''GitHub API rate limit low ('' @ remaining @ '' remaining). Resets at ''
                      @ localeTime net resetDate]\<rparr>)
          else w)"

text \<open>
  An asynchronous function runs up to its first \<^verbatim>\<open>await\<close> when it is called, and the rest
  when the awaited promise settles.  \<^verbatim>\<open>fetchRepoTree\<close> and \<^verbatim>\<open>fetchRawContent\<close> are therefore
  in two parts: \<open>_start\<close> looks the key up and, on a miss, sends the request; \<open>_finish\<close>
  takes the response.  Between the two parts other tasks of a \<^verbatim>\<open>Promise.all\<close> run.
\<close>

datatype tree_task = TreeHit GitTreeResponse | TreeBad | TreeWait string string "string option"

datatype raw_task = RawHit string | RawBad | RawWait string string

definition fetchRepoTree_start :: "client \<Rightarrow> string \<Rightarrow> string \<Rightarrow> string \<Rightarrow> tree_task \<times> client" where
  "fetchRepoTree_start w ow rp br =
     (let key = treeKey ow rp br;
          url = BASE_URL @ ''/repos/'' @ ow @ ''/'' @ rp @ ''/git/trees/'' @ br @ ''?recursive=1''
      in case getFromCache w key of (cached, w1) \<Rightarrow>
           (let token = githubToken w1;
                wait = (TreeWait key url (if token \<noteq> [] then Some token else None),
                        w1\<lparr>requests := requests w1 @ [url]\<rparr>)
            in case cached of
                 Some (CachedTree t) \<Rightarrow> (TreeHit t, w1)
               | Some (CachedRaw c) \<Rightarrow> if c \<noteq> [] then (TreeBad, w1) else wait
               | None \<Rightarrow> wait))"

definition fetchRepoTree_finish ::
  "remote \<Rightarrow> client \<Rightarrow> string \<Rightarrow> string \<Rightarrow> string \<Rightarrow> tree_task \<Rightarrow> (string + GitTreeResponse) \<times> client" where
  "fetchRepoTree_finish net w ow rp br task =
     (case task of
        TreeHit t \<Rightarrow> (Inr t, w)
      | TreeBad \<Rightarrow> (Inl ''TypeError: Cannot read properties of undefined'', w)
      | TreeWait key url token \<Rightarrow>
          (case api net url token of
             Rejected e \<Rightarrow> (Inl e, w)
           | Responded h body \<Rightarrow>
               if \<not> ok h then
                 (if status h = 404
                  then (Inl (''Error: Repository or branch not found: '' @ ow @ ''/'' @ rp @ ''@'' @ br), w)
                  else (Inl (''Error: GitHub API error: '' @ showNat (status h) @ '' '' @ statusText h), w))
               else
                 (let w1 = checkRateLimit net w h
                  in case body of
                       Inl e \<Rightarrow> (Inl e, w1)
                     | Inr d \<Rightarrow>
                         (let w2 = (if truncated d
                                    then w1\<lparr>console := console w1 @
                                           [''Tree for '' @ ow @ ''/'' @ rp @ '' was truncated. Some skills may be missing.'']\<rparr>
                                    else w1)
                          in (Inr d, setCache w2 key (CachedTree d))))))"

definition fetchRepoTree ::
  "remote \<Rightarrow> client \<Rightarrow> string \<Rightarrow> string \<Rightarrow> string \<Rightarrow> (string + GitTreeResponse) \<times> client" where
  "fetchRepoTree net w ow rp br =
     (case fetchRepoTree_start w ow rp br of (task, w1) \<Rightarrow> fetchRepoTree_finish net w1 ow rp br task)"

definition fetchRawContent_start ::
  "client \<Rightarrow> string \<Rightarrow> string \<Rightarrow> string \<Rightarrow> string \<Rightarrow> raw_task \<times> client" where
  "fetchRawContent_start w ow rp pa br =
     (let key = rawKey ow rp pa br;
          url = RAW_URL @ ''/'' @ ow @ ''/'' @ rp @ ''/'' @ br @ ''/'' @ pa
      in case getFromCache w key of (cached, w1) \<Rightarrow>
           (let wait = (RawWait key url, w1\<lparr>requests := requests w1 @ [url]\<rparr>)
            in case cached of
                 Some (CachedRaw c) \<Rightarrow> if c \<noteq> [] then (RawHit c, w1) else wait
               | Some (CachedTree t) \<Rightarrow> (RawBad, w1)
               | None \<Rightarrow> wait))"

definition fetchRawContent_finish :: "remote \<Rightarrow> client \<Rightarrow> raw_task \<Rightarrow> (string + string) \<times> client" where
  "fetchRawContent_finish net w task =
     (case task of
        RawHit c \<Rightarrow> (Inr c, w)
      | RawBad \<Rightarrow> (Inl ''TypeError: content.match is not a function'', w)
      | RawWait key url \<Rightarrow>
          (case rawHost net url of
             Rejected e \<Rightarrow> (Inl e, w)
           | Responded h body \<Rightarrow>
               if \<not> ok h then (Inl (''Error: Failed to fetch file: '' @ showNat (status h)), w)
               else (case body of
                       Inl e \<Rightarrow> (Inl e, w)
                     | Inr content \<Rightarrow> (Inr content, setCache w key (CachedRaw content)))))"

definition fetchRawContent ::
  "remote \<Rightarrow> client \<Rightarrow> string \<Rightarrow> string \<Rightarrow> string \<Rightarrow> string \<Rightarrow> (string + string) \<times> client" where
  "fetchRawContent net w ow rp pa br =
     (case fetchRawContent_start w ow rp pa br of (task, w1) \<Rightarrow> fetchRawContent_finish net w1 task)"

text \<open>\<^verbatim>\<open>fetchSkillMetadataRaw\<close>: every failure inside is caught, logged and answered by null.\<close>

definition fetchSkillMetadataRaw_start :: "client \<Rightarrow> SkillRepository \<Rightarrow> string \<Rightarrow> raw_task \<times> client" where
  "fetchSkillMetadataRaw_start w d sp =
     fetchRawContent_start w (owner d) (repo d) (sp @ ''/SKILL.md'') (branch d)"

definition makeSkill :: "SkillRepository \<Rightarrow> string \<Rightarrow> string \<Rightarrow> string \<Rightarrow> Skill" where
  "makeSkill d skillName sp content =
     (case parseSkillMd content of (metadata, body) \<Rightarrow>
        \<lparr>name = (if md_name metadata \<noteq> [] then md_name metadata else skillName),
         description = (if md_description metadata \<noteq> [] then md_description metadata
                        else ''No description available''),
         license = md_license metadata,
         compatibility = md_compatibility metadata,
         source = d,
         skillPath = sp,
         fullContent = Some content,
         bodyContent = Some body\<rparr>)"

definition fetchSkillMetadataRaw_finish ::
  "remote \<Rightarrow> client \<Rightarrow> SkillRepository \<Rightarrow> string \<Rightarrow> string \<Rightarrow> raw_task \<Rightarrow> Skill option \<times> client" where
  "fetchSkillMetadataRaw_finish net w d skillName sp task =
     (case fetchRawContent_finish net w task of
        (Inr content, w1) \<Rightarrow> (Some (makeSkill d skillName sp content), w1)
      | (Inl e, w1) \<Rightarrow> (None, w1\<lparr>console := console w1 @ [''No SKILL.md found for '' @ skillName]\<rparr>))"

definition fetchSkillMetadataRaw ::
  "remote \<Rightarrow> client \<Rightarrow> SkillRepository \<Rightarrow> string \<Rightarrow> string \<Rightarrow> Skill option \<times> client" where
  "fetchSkillMetadataRaw net w d skillName sp =
     (case fetchSkillMetadataRaw_start w d sp of (task, w1) \<Rightarrow>
        fetchSkillMetadataRaw_finish net w1 d skillName sp task)"

text \<open>\<^verbatim>\<open>p.split('/').pop() || p\<close>\<close>

definition skillNameOf :: "string \<Rightarrow> string" where
  "skillNameOf p = (let l = last (split (CHR ''/'') p) in if l \<noteq> [] then l else p)"

definition skillMdFiles :: "SkillRepository \<Rightarrow> GitTreeResponse \<Rightarrow> GitTreeItem list" where
  "skillMdFiles d t =
     filter (\<lambda>item. item_type item = Blob
                   \<and> startsWith (item_path item) (path d @ ''/'')
                   \<and> endsWith (item_path item) ''/SKILL.md'') (tree t)"

definition skillPaths :: "SkillRepository \<Rightarrow> GitTreeResponse \<Rightarrow> string list" where
  "skillPaths d t =
     map (\<lambda>item. substring (item_path item) 0 (lastIndexOf (item_path item) (CHR ''/'')))
         (skillMdFiles d t)"

text \<open>Running the same part of each task of a \<^verbatim>\<open>Promise.all\<close>, one task after the other.\<close>

fun mapAccum :: "('s \<Rightarrow> 'a \<Rightarrow> 'b \<times> 's) \<Rightarrow> 's \<Rightarrow> 'a list \<Rightarrow> 'b list \<times> 's" where
  "mapAccum f s [] = ([], s)"
| "mapAccum f s (x # xs) =
     (case f s x of (y, s1) \<Rightarrow> (case mapAccum f s1 xs of (ys, s2) \<Rightarrow> (y # ys, s2)))"

text \<open>
  One resolution, \<^verbatim>\<open>fetchSkillsFromRepo\<close>, in its three parts.  The first runs to the first
  \<^verbatim>\<open>await\<close>: the lookup (and request) of the manifest of a single skill, or of the listing.
  The second takes the listing and starts the fetch of every manifest under the path.
  The third takes the manifests and keeps the skills that are not null.  Inside one
  resolution this order is the code's own: the callbacks of \<^verbatim>\<open>skillPaths.map\<close> run one after
  the other, each to its first \<^verbatim>\<open>await\<close>, so every lookup is made before any response is
  taken.
\<close>

datatype repo_task = Single raw_task | Listed tree_task

datatype manifest_tasks = Failed string | Manifests "(string \<times> raw_task) list"

definition startRepo :: "client \<Rightarrow> SkillRepository \<Rightarrow> repo_task \<times> client" where
  "startRepo w d =
     (if singleSkill d = Some True
      then (case fetchSkillMetadataRaw_start w d (path d) of (t, w1) \<Rightarrow> (Single t, w1))
      else (case fetchRepoTree_start w (owner d) (repo d) (branch d) of (t, w1) \<Rightarrow> (Listed t, w1)))"

definition continueRepo :: "remote \<Rightarrow> client \<Rightarrow> SkillRepository \<times> repo_task \<Rightarrow> manifest_tasks \<times> client" where
  "continueRepo net w dt =
     (case dt of
        (d, Single t) \<Rightarrow> (Manifests [(path d, t)], w)
      | (d, Listed tt) \<Rightarrow>
          (case fetchRepoTree_finish net w (owner d) (repo d) (branch d) tt of
             (Inl e, w1) \<Rightarrow> (Failed e, w1)
           | (Inr t, w1) \<Rightarrow>
               (case mapAccum (\<lambda>w sp. fetchSkillMetadataRaw_start w d sp) w1 (skillPaths d t) of
                  (ts, w2) \<Rightarrow> (Manifests (zip (skillPaths d t) ts), w2))))"

definition finishRepo :: "remote \<Rightarrow> client \<Rightarrow> SkillRepository \<times> manifest_tasks \<Rightarrow> (string + Skill list) \<times> client" where
  "finishRepo net w dt =
     (case dt of
        (d, Failed e) \<Rightarrow> (Inl e, w)
      | (d, Manifests ts) \<Rightarrow>
          (case mapAccum (\<lambda>w (sp, t). fetchSkillMetadataRaw_finish net w d (skillNameOf sp) sp t) w ts of
             (skills, w1) \<Rightarrow> (Inr (List.map_filter id skills), w1)))"

definition fetchSkillsFromRepo :: "remote \<Rightarrow> client \<Rightarrow> SkillRepository \<Rightarrow> (string + Skill list) \<times> client" where
  "fetchSkillsFromRepo net w d =
     (case startRepo w d of (t1, w1) \<Rightarrow>
        (case continueRepo net w1 (d, t1) of (t2, w2) \<Rightarrow> finishRepo net w2 (d, t2)))"

text \<open>
  \<^verbatim>\<open>fetchAllSkills\<close>.  \<open>settleAll\<close> is \<^verbatim>\<open>Promise.allSettled\<close> over the resolutions: every
  resolution runs its first part when it is created, then the listings arrive, then the
  manifests.  That is one order in which the responses can arrive; the code admits others,
  in which the requests and the console lines come in another order and a resolution can
  find in the cache what another one has stored.  \<open>collect\<close> is the loop over the settled
  results, \<open>failureWarning\<close> the message shown after it.
\<close>

definition settleAll :: "remote \<Rightarrow> client \<Rightarrow> SkillRepository list \<Rightarrow> (string + Skill list) list \<times> client" where
  "settleAll net w repositories =
     (case mapAccum startRepo w repositories of (ts1, w1) \<Rightarrow>
        (case mapAccum (continueRepo net) w1 (zip repositories ts1) of (ts2, w2) \<Rightarrow>
           mapAccum (finishRepo net) w2 (zip repositories ts2)))"

fun collect ::
  "Skill list \<times> string list \<times> client \<Rightarrow> (SkillRepository \<times> (string + Skill list)) list
     \<Rightarrow> Skill list \<times> string list \<times> client" where
  "collect acc [] = acc"
| "collect (allSkills, errors, w) ((d, Inr val) # rest) = collect (allSkills @ val, errors, w) rest"
| "collect (allSkills, errors, w) ((d, Inl reason) # rest) =
     collect (allSkills,
              errors @ [owner d @ ''/'' @ repo d @ '': '' @ reason],
              w\<lparr>console := console w @
                  [''Failed to fetch skills from '' @ owner d @ ''/'' @ repo d @ '': '' @ reason]\<rparr>) rest"

definition failureWarning :: "string list \<Rightarrow> Skill list \<Rightarrow> string option" where
  "failureWarning errors allSkills =
     (if length errors > 0 \<and> length allSkills = 0
      then Some (''Failed to fetch some skills: '' @ hd errors
                 @ (if length errors > 1 then '' (+'' @ showNat (length errors - 1) @ '' more)'' else []))
      else None)"

definition fetchAllSkills :: "remote \<Rightarrow> client \<Rightarrow> SkillRepository list \<Rightarrow> Skill list \<times> client" where
  "fetchAllSkills net w repositories =
     (case settleAll net w repositories of (results, w1) \<Rightarrow>
        (case collect ([], [], w1) (zip repositories results) of (allSkills, errors, w2) \<Rightarrow>
           (case failureWarning errors allSkills of
              Some msg \<Rightarrow> (allSkills, w2\<lparr>warnings := warnings w2 @ [msg]\<rparr>)
            | None \<Rightarrow> (allSkills, w2))))"


section \<open>Vocabulary of the statements about the parsers\<close>

text \<open>\<^verbatim>\<open>xs.join(sep)\<close>\<close>

fun joinWith :: "string \<Rightarrow> string list \<Rightarrow> string" where
  "joinWith sep [] = []"
| "joinWith sep [x] = x"
| "joinWith sep (x # y # ys) = x @ sep @ joinWith sep (y # ys)"

text \<open>What \<open>setMetadataValue\<close> stored under a key it knows.\<close>

definition getMetadataValue :: "SkillMetadata \<Rightarrow> string \<Rightarrow> string option" where
  "getMetadataValue m key =
     (if key = ''name'' then Some (md_name m)
      else if key = ''description'' then Some (md_description m)
      else if key = ''license'' then md_license m
      else if key = ''compatibility'' then md_compatibility m
      else if key = ''allowed-tools'' then md_allowedTools m
      else None)"

definition knownKeys :: "string set" where
  "knownKeys = {''name'', ''description'', ''license'', ''compatibility'', ''allowed-tools''}"


text \<open>What a settled resolution adds to the merged list, and the error lines of the failed ones.\<close>

definition fulfilled :: "string + Skill list \<Rightarrow> Skill list" where
  "fulfilled r = (case r of Inr val \<Rightarrow> val | Inl reason \<Rightarrow> [])"

definition failures :: "(SkillRepository \<times> (string + Skill list)) list \<Rightarrow> string list" where
  "failures prs =
     concat (map (\<lambda>(d, r). case r of Inl reason \<Rightarrow> [owner d @ ''/'' @ repo d @ '': '' @ reason]
                                    | Inr val \<Rightarrow> []) prs)"

text \<open>A skill made by \<open>makeSkill\<close>, and a settled result whose skills all are.\<close>

definition builtSkill :: "Skill \<Rightarrow> bool" where
  "builtSkill s = (\<exists>d nm sp content. s = makeSkill d nm sp content)"

definition builtResult :: "string + Skill list \<Rightarrow> bool" where
  "builtResult r = (\<forall>skills s. r = Inr skills \<and> s \<in> set skills \<longrightarrow> builtSkill s)"

text \<open>Two states of the client in which every lookup gives the same value.\<close>

definition sameLookups :: "client \<Rightarrow> client \<Rightarrow> bool" where
  "sameLookups w w' = (\<forall>key. fst (getFromCache w key) = fst (getFromCache w' key))"






section \<open>A small network for the examples\<close>

text \<open>
  The repository \<open>o/r\<close> on the branch \<open>main\<close> has the manifests \<open>skills/a/SKILL.md\<close>,
  \<open>skills/b/SKILL.md\<close> (an empty file) and \<open>other/SKILL.md\<close>; every other URL answers 404.
\<close>

definition exItem :: "string \<Rightarrow> GitTreeItem" where
  "exItem p = \<lparr>item_path = p, item_mode = ''100644'', item_type = Blob, item_sha = []\<rparr>"

definition exTree :: GitTreeResponse where
  "exTree = \<lparr>tree_sha = [], tree_url = [],
     tree = [exItem ''skills/a/SKILL.md'', exItem ''skills/b/SKILL.md'', exItem ''other/SKILL.md''],
     truncated = False\<rparr>"

definition exOk :: response_head where
  "exOk = \<lparr>ok = True, status = 200, statusText = ''OK'',
     ratelimit_remaining = None, ratelimit_reset = None\<rparr>"

definition exNotFound :: response_head where
  "exNotFound = \<lparr>ok = False, status = 404, statusText = ''Not Found'',
     ratelimit_remaining = None, ratelimit_reset = None\<rparr>"

definition exNet :: remote where
  "exNet = \<lparr>
     api = (\<lambda>url token.
        if url = ''https://api.github.com/repos/o/r/git/trees/main?recursive=1''
        then Responded exOk (Inr exTree) else Responded exNotFound (Inl [])),
     rawHost = (\<lambda>url.
        if url = ''https://raw.githubusercontent.com/o/r/main/skills/a/SKILL.md''
        then Responded exOk (Inr ''---\<newline>name: Alpha\<newline>---\<newline>Body'')
        else if url = ''https://raw.githubusercontent.com/o/r/main/skills/b/SKILL.md''
        then Responded exOk (Inr [])
        else if url = ''https://raw.githubusercontent.com/o/r/main/other/SKILL.md''
        then Responded exOk (Inr ''no header'')
        else Responded exNotFound (Inl [])),
     localeTime = (\<lambda>t. [])\<rparr>"

definition exClient :: client where
  "exClient = \<lparr>cache = Map.empty, now = 1000, cacheTimeout = 3600,
     githubToken = [], requests = [], warnings = [], console = []\<rparr>"

definition exSkills :: SkillRepository where
  "exSkills = \<lparr>owner = ''o'', repo = ''r'', path = ''skills'', branch = ''main'', singleSkill = None\<rparr>"

definition exGone :: SkillRepository where
  "exGone = \<lparr>owner = ''o'', repo = ''gone'', path = ''skills'', branch = ''main'', singleSkill = None\<rparr>"

definition exSingle :: SkillRepository where
  "exSingle = \<lparr>owner = ''o'', repo = ''r'', path = ''my-skill'', branch = ''main'',
     singleSkill = Some True\<rparr>"

definition exOther :: SkillRepository where
  "exOther = \<lparr>owner = ''o'', repo = ''r'', path = ''other'', branch = ''main'',
     singleSkill = Some True\<rparr>"






text \<open>A workspace with one installed skill, \<open>.github/skills/pdf\<close>, whose manifest has no description.\<close>

definition exFs :: host_fs where
  "exFs = \<lparr>
     workspaceFolder = Some ''/ws'',
     readDirectory = (\<lambda>loc. if loc = ''.github/skills''
                            then Inr [(''pdf'', 2), (''notes.txt'', 1)] else Inl ''FileNotFound''),
     readSkillMd = (\<lambda>loc nm. if loc = ''.github/skills'' \<and> nm = ''pdf''
                             then Inr ''no header'' else Inl ''FileNotFound''),
     isoNow = ''2026-01-01T00:00:00.000Z''\<rparr>"

section \<open>Properties of the cache layer\<close>

lemma split_first:
  "c \<notin> set a \<Longrightarrow> c \<notin> set a' \<Longrightarrow> a @ c # r = a' @ c # r' \<Longrightarrow> a = a' \<and> r = r'"
proof (induction a arbitrary: a')
  case Nil
  then show ?case by (cases a') auto
next
  case (Cons x a)
  then show ?case by (cases a') auto
qed

lemma split_last:
  assumes "c \<notin> set b" "c \<notin> set b'" "p @ c # b = p' @ c # b'"
  shows "p = p' \<and> b = b'"
proof -
  from assms(3) have "rev (p @ c # b) = rev (p' @ c # b')" by simp
  then have "rev b @ c # rev p = rev b' @ c # rev p'" by simp
  with assms(1,2) have "rev b = rev b' \<and> rev p = rev p'"
    using split_first [of c "rev b" "rev b'" "rev p" "rev p'"] by simp
  then show ?thesis by simp
qed

lemma cacheKey_inj:
  assumes w: "wellNamed r" "wellNamed r'" and k: "cacheKey r = cacheKey r'"
  shows "r = r'"
proof (cases r; cases r')
  fix a b c a' b' c'
  assume r: "r = Listing a b c" and r': "r' = Listing a' b' c'"
  from k r r' have "a @ CHR ''/'' # (b @ ''@'' @ c) = a' @ CHR ''/'' # (b' @ ''@'' @ c')"
    by (simp add: treeKey_def)
  with w r r' have "a = a' \<and> b @ ''@'' @ c = b' @ ''@'' @ c'"
    using split_first [of "CHR ''/''" a a'] by (simp add: wellNamed_def)
  moreover from this w r r' have "b = b' \<and> c = c'"
    using split_last [of "CHR ''@''" c c' b b'] by (simp add: wellNamed_def)
  ultimately show ?thesis using r r' by simp
next
  fix a b c d a' b' c' d'
  assume r: "r = RawFile a b c d" and r': "r' = RawFile a' b' c' d'"
  from k r r' have "a @ CHR ''/'' # (b @ ''/'' @ d @ ''@'' @ c)
      = a' @ CHR ''/'' # (b' @ ''/'' @ d' @ ''@'' @ c')"
    by (simp add: rawKey_def)
  with w r r' have 1: "a = a' \<and> b @ ''/'' @ d @ ''@'' @ c = b' @ ''/'' @ d' @ ''@'' @ c'"
    using split_first [of "CHR ''/''" a a'] by (simp add: wellNamed_def)
  then have "b @ CHR ''/'' # (d @ ''@'' @ c) = b' @ CHR ''/'' # (d' @ ''@'' @ c')" by simp
  with w r r' have 2: "b = b' \<and> d @ ''@'' @ c = d' @ ''@'' @ c'"
    using split_first [of "CHR ''/''" b b'] by (simp add: wellNamed_def)
  with w r r' have "d = d' \<and> c = c'"
    using split_last [of "CHR ''@''" c c' d d'] by (simp add: wellNamed_def)
  with 1 2 show ?thesis using r r' by simp
next
  fix a b c a' b' c' d'
  assume "r = Listing a b c" and "r' = RawFile a' b' c' d'"
  with k show ?thesis by (simp add: treeKey_def rawKey_def)
next
  fix a b c d a' b' c'
  assume "r = RawFile a b c d" and "r' = Listing a' b' c'"
  with k show ?thesis by (simp add: treeKey_def rawKey_def)
qed

text \<open>
  Claim C3.  An entry stored by \<open>setCache\<close> at time \<open>now w0\<close> and still in the map of a
  later state \<open>w\<close>: a lookup strictly before the stored time plus the timeout (the setting
  of the lookup's own state, in milliseconds) returns the stored value and leaves the state
  as it is; a lookup strictly after it returns nothing and removes the entry, so that any
  later lookup of the key on that map returns nothing too; and a key that is not in the
  map is looked up as nothing, with no change of state.
\<close>

theorem getFromCache_timeboxed:
  fixes w :: "('v, 'z) store_scheme"
  assumes "cache w key = cache (setCache w0 key v) key"
  shows "(now w < now w0 + cacheTimeout w * 1000 \<longrightarrow> getFromCache w key = (Some v, w))
    \<and> (now w > now w0 + cacheTimeout w * 1000 \<longrightarrow>
          getFromCache w key = (None, w\<lparr>cache := (cache w)(key := None)\<rparr>)
        \<and> (\<forall>w' :: ('v, 'z) store_scheme.
              cache w' = cache (snd (getFromCache w key)) \<longrightarrow> getFromCache w' key = (None, w')))
    \<and> (\<forall>w' :: ('v, 'z) store_scheme. cache w' key = None \<longrightarrow> getFromCache w' key = (None, w'))"
  using assms by (auto simp: getFromCache_def setCache_def Let_def)

theorem getFromCache_timeboxed_witness:
  "getFromCache (setCache \<lparr>cache = Map.empty, now = 5000, cacheTimeout = 2\<rparr> ''k'' (7::nat)\<lparr>now := 6999\<rparr>) ''k''
     = (Some 7, setCache \<lparr>cache = Map.empty, now = 5000, cacheTimeout = 2\<rparr> ''k'' 7\<lparr>now := 6999\<rparr>)
   \<and> getFromCache (setCache \<lparr>cache = Map.empty, now = 5000, cacheTimeout = 2\<rparr> ''k'' (7::nat)\<lparr>now := 7001\<rparr>) ''k''
     = (None, \<lparr>cache = Map.empty, now = 7001, cacheTimeout = 2\<rparr>)
   \<and> getFromCache \<lparr>cache = Map.empty, now = 7002, cacheTimeout = 2\<rparr> ''k''
     = (None :: nat option, \<lparr>cache = Map.empty, now = 7002, cacheTimeout = 2\<rparr>)"
proof -
  let ?w0 = "\<lparr>cache = Map.empty, now = 5000, cacheTimeout = 2\<rparr> :: nat store"
  let ?w1 = "setCache ?w0 ''k'' 7\<lparr>now := 6999\<rparr>"
  let ?w2 = "setCache ?w0 ''k'' 7\<lparr>now := 7001\<rparr>"
  have h1: "cache ?w1 ''k'' = cache (setCache ?w0 ''k'' 7) ''k''"
    by (simp add: setCache_def)
  have h2: "cache ?w2 ''k'' = cache (setCache ?w0 ''k'' 7) ''k''"
    by (simp add: setCache_def)
  have a: "getFromCache ?w1 ''k'' = (Some 7, ?w1)"
    using getFromCache_timeboxed [OF h1, THEN conjunct1] by (simp add: setCache_def)
  have b: "getFromCache ?w2 ''k'' = (None, ?w2\<lparr>cache := (cache ?w2)(''k'' := None)\<rparr>)"
    using getFromCache_timeboxed [OF h2, THEN conjunct2, THEN conjunct1]
    by (simp add: setCache_def)
  have c: "getFromCache \<lparr>cache = Map.empty, now = 7002, cacheTimeout = 2\<rparr> ''k''
     = (None :: nat option, \<lparr>cache = Map.empty, now = 7002, cacheTimeout = 2\<rparr>)"
    using getFromCache_timeboxed [OF h1, THEN conjunct2, THEN conjunct2, THEN spec,
        of "\<lparr>cache = Map.empty, now = 7002, cacheTimeout = 2\<rparr>"]
    by simp
  have d: "?w2\<lparr>cache := (cache ?w2)(''k'' := None)\<rparr> = \<lparr>cache = Map.empty, now = 7001, cacheTimeout = 2\<rparr>"
    by (simp add: setCache_def)
  from a b c d show ?thesis by simp
qed

text \<open>
  Claim C7, as stated, fails: a raw file \<open>p\<close> on the branch \<open>x@b\<close> and a raw file \<open>p@x\<close>
  on the branch \<open>b\<close> of one repository are two resources with one key.
\<close>

theorem cacheKey_collision:
  "cacheKey (RawFile ''o'' ''r'' ''x@b'' ''p'') = cacheKey (RawFile ''o'' ''r'' ''b'' ''p@x'')
   \<and> RawFile ''o'' ''r'' ''x@b'' ''p'' \<noteq> RawFile ''o'' ''r'' ''b'' ''p@x''"
  by (simp add: rawKey_def)

text \<open>
  Claim C7, amended.  Two different resources (a listing of owner, repository and branch,
  or a raw file of owner, repository, branch and path) have different keys whenever their
  owners hold no slash, the repository names of raw files hold no slash, and their
  branches hold no \<open>@\<close>.
\<close>

theorem cacheKey_distinct:
  "wellNamed r \<Longrightarrow> wellNamed r' \<Longrightarrow> r \<noteq> r' \<Longrightarrow> cacheKey r \<noteq> cacheKey r'"
  using cacheKey_inj by blast

theorem cacheKey_distinct_witness:
  "wellNamed (RawFile ''o'' ''r'' ''main'' ''skills/a/SKILL.md'')
   \<and> wellNamed (RawFile ''o'' ''r'' ''main'' ''skills/b/SKILL.md'')
   \<and> RawFile ''o'' ''r'' ''main'' ''skills/a/SKILL.md'' \<noteq> RawFile ''o'' ''r'' ''main'' ''skills/b/SKILL.md''
   \<and> cacheKey (RawFile ''o'' ''r'' ''main'' ''skills/a/SKILL.md'')
       \<noteq> cacheKey (RawFile ''o'' ''r'' ''main'' ''skills/b/SKILL.md'')"
  using cacheKey_distinct [of "RawFile ''o'' ''r'' ''main'' ''skills/a/SKILL.md''"
      "RawFile ''o'' ''r'' ''main'' ''skills/b/SKILL.md''"]
  by (simp add: wellNamed_def)

section \<open>Properties of the manifest parser\<close>

lemma scanKey_nonempty: "scanKey s = Some (k, r) \<Longrightarrow> k \<noteq> []"
  by (induction s arbitrary: k r rule: scanKey.induct) (auto split: if_splits list.splits)


lemma keyMatch_nonempty: "keyMatch l = Some (k, v) \<Longrightarrow> k \<noteq> []"
  by (auto simp: keyMatch_def Let_def split: option.splits if_splits dest: scanKey_nonempty)


lemma get_set_known: "k \<in> knownKeys \<Longrightarrow> getMetadataValue (setMetadataValue m k v) k = Some v"
  by (auto simp: knownKeys_def getMetadataValue_def setMetadataValue_def)




lemma continuation_lines:
  assumes "\<forall>l \<in> set mid. keyMatch l = None" "k \<noteq> []"
  shows "foldl frontmatterStep (m, k, acc) mid
       = (m, k, acc @ concat (map (\<lambda>l. trim l @ '' '') (filter (\<lambda>l. startsWith l ''  '') mid)))"
  using assms
proof (induction mid arbitrary: acc)
  case Nil
  then show ?case by simp
next
  case (Cons l mid)
  then show ?case by (simp add: frontmatterStep_def)
qed


lemma isSpace_space: "isSpace CHR '' ''"
  by (simp add: isSpace_def)


lemma trim_snoc_space: "trim (s @ '' '') = trim s"
proof (cases "\<forall>c \<in> set s. isSpace c")
  case True
  then have "dropWhile isSpace (s @ '' '') = dropWhile isSpace '' ''"
    by (intro dropWhile_append2) simp
  also have "\<dots> = []" using isSpace_space by simp
  finally have a: "dropWhile isSpace (s @ '' '') = []" .
  from True have b: "dropWhile isSpace s = []" by simp
  show ?thesis unfolding trim_def a b by simp
next
  case False
  then obtain x where "x \<in> set s" "\<not> isSpace x" by blast
  then have a: "dropWhile isSpace (s @ '' '') = dropWhile isSpace s @ '' ''"
    by (rule dropWhile_append1)
  show ?thesis unfolding trim_def a using isSpace_space by simp
qed


lemma concat_join: "xs \<noteq> [] \<Longrightarrow> concat (map (\<lambda>l. l @ sep) xs) = joinWith sep xs @ sep"
  by (induction sep xs rule: joinWith.induct) auto


lemma split_join:
  "ls \<noteq> [] \<Longrightarrow> \<forall>l \<in> set ls. d \<notin> set l \<Longrightarrow> split d (joinWith [d] ls) = ls"
proof (induction "[d]" ls rule: joinWith.induct)
  case 1
  then show ?case by simp
next
  case (2 x)
  then show ?case by (induction x) auto
next
  case (3 x y ys)
  then have ih: "split d (joinWith [d] (y # ys)) = y # ys" by simp
  from 3 have "d \<notin> set x" by simp
  then have "split d (x @ d # joinWith [d] (y # ys)) = x # y # ys"
    using ih by (induction x) auto
  then show ?case by simp
qed

lemma after_key_line:
  assumes key: "keyMatch keyline = Some (k, v)" "trim v = []"
      and mid: "\<forall>l \<in> set mid. keyMatch l = None"
  shows "\<exists>m1. foldl frontmatterStep st (pre @ keyline # mid)
           = (m1, k, concat (map (\<lambda>l. trim l @ '' '') (filter (\<lambda>l. startsWith l ''  '') mid)))"
proof -
  obtain m0 ck mv where st0: "foldl frontmatterStep st pre = (m0, ck, mv)"
    by (cases "foldl frontmatterStep st pre") auto
  have k: "k \<noteq> []" using key(1) by (rule keyMatch_nonempty)
  have "frontmatterStep (m0, ck, mv) keyline = (commitMultiline (m0, ck, mv), k, [])"
    using key by (simp add: frontmatterStep_def)
  then have "foldl frontmatterStep st (pre @ keyline # mid)
      = foldl frontmatterStep (commitMultiline (m0, ck, mv), k, []) mid"
    using st0 by simp
  also have "\<dots> = (commitMultiline (m0, ck, mv), k,
      [] @ concat (map (\<lambda>l. trim l @ '' '') (filter (\<lambda>l. startsWith l ''  '') mid)))"
    using mid k by (rule continuation_lines)
  finally show ?thesis by simp
qed

lemma concat_nonempty: "xs \<noteq> [] \<Longrightarrow> concat (map (\<lambda>l. trim l @ '' '') xs) \<noteq> []"
  by (cases xs) auto

lemma trim_concat_join:
  "xs \<noteq> [] \<Longrightarrow> trim (concat (map (\<lambda>l. trim l @ '' '') xs)) = trim (joinWith '' '' (map trim xs))"
proof -
  assume ne: "xs \<noteq> []"
  have "concat (map (\<lambda>l. trim l @ '' '') xs) = concat (map (\<lambda>l. l @ '' '') (map trim xs))"
    by (simp add: comp_def)
  also have "\<dots> = joinWith '' '' (map trim xs) @ '' ''"
    using ne by (intro concat_join) simp
  finally show ?thesis by (simp only: trim_snoc_space)
qed

lemma multiline_state:
  assumes key: "keyMatch keyline = Some (k, v)" "trim v = []"
      and mid: "\<forall>l \<in> set mid. keyMatch l = None"
      and conts: "conts = filter (\<lambda>l. startsWith l ''  '') mid" "conts \<noteq> []"
  shows "\<exists>m1 acc. foldl frontmatterStep st (pre @ keyline # mid) = (m1, k, acc)
           \<and> commitMultiline (m1, k, acc)
               = setMetadataValue m1 k (trim (joinWith '' '' (map trim conts)))"
proof -
  let ?acc = "concat (map (\<lambda>l. trim l @ '' '') conts)"
  obtain m1 where m1: "foldl frontmatterStep st (pre @ keyline # mid) = (m1, k, ?acc)"
    using after_key_line [OF key mid, of st pre] conts(1) by auto
  have k: "k \<noteq> []" using key(1) by (rule keyMatch_nonempty)
  have acc: "?acc \<noteq> []" using conts(2) by (rule concat_nonempty)
  have val: "trim ?acc = trim (joinWith '' '' (map trim conts))"
    using conts(2) by (rule trim_concat_join)
  have "commitMultiline (m1, k, ?acc) = setMetadataValue m1 k (trim ?acc)"
    using k acc by (simp add: commitMultiline_def)
  with m1 val show ?thesis by auto
qed

lemma multiline_end_of_header:
  assumes key: "keyMatch keyline = Some (k, v)" "trim v = []" "k \<in> knownKeys"
      and mid: "\<forall>l \<in> set mid. keyMatch l = None"
      and conts: "conts = filter (\<lambda>l. startsWith l ''  '') mid" "conts \<noteq> []"
      and nl: "\<forall>l \<in> set (pre @ keyline # mid). CHR 0x0A \<notin> set l"
  shows "getMetadataValue (parseYamlFrontmatter (joinWith [CHR 0x0A] (pre @ keyline # mid))) k
           = Some (trim (joinWith '' '' (map trim conts)))"
proof -
  let ?st = "(emptyMetadata, [], []) :: scan_state"
  obtain m1 acc where m1: "foldl frontmatterStep ?st (pre @ keyline # mid) = (m1, k, acc)"
      and commit: "commitMultiline (m1, k, acc)
               = setMetadataValue m1 k (trim (joinWith '' '' (map trim conts)))"
    using multiline_state [OF key(1,2) mid conts, of ?st pre] by blast
  have lines: "split (CHR 0x0A) (joinWith [CHR 0x0A] (pre @ keyline # mid)) = pre @ keyline # mid"
    using nl by (intro split_join) auto
  have "parseYamlFrontmatter (joinWith [CHR 0x0A] (pre @ keyline # mid))
      = setMetadataValue m1 k (trim (joinWith '' '' (map trim conts)))"
    unfolding parseYamlFrontmatter_def lines m1 commit ..
  then show ?thesis using key(3) by (simp add: get_set_known)
qed


lemma multiline_example_match:
  "frontmatterMatch ''---\<newline>description:\<newline>  Line one\<newline>  Line two\<newline>---\<newline>''
   = Some (''description:\<newline>  Line one\<newline>  Line two'', [])"
  by (simp add: frontmatterMatch_def dashes_def startsWith_def closeDelim_def)

lemma keyMatch_description: "keyMatch ''description:'' = Some (''description'', [])"
  by (simp add: keyMatch_def isWordChar_def)

lemma keyMatch_indented: "keyMatch ''  Line one'' = None" "keyMatch ''  Line two'' = None"
  by (simp_all add: keyMatch_def isWordChar_def)

lemma trim_example:
  "trim [] = []" "trim ''  Line one'' = ''Line one''" "trim ''  Line two'' = ''Line two''"
  "trim ''Line one Line two'' = ''Line one Line two''"
  by (simp_all add: trim_def isSpace_def)

lemma multiline_example:
  "md_description (fst (parseSkillMd
      ''---\<newline>description:\<newline>  Line one\<newline>  Line two\<newline>---\<newline>''))
   = ''Line one Line two''"
proof -
  have "getMetadataValue (parseYamlFrontmatter
           (joinWith [CHR 0x0A] ([] @ ''description:'' # [''  Line one'', ''  Line two''])))
           ''description''
         = Some (trim (joinWith '' '' (map trim [''  Line one'', ''  Line two''])))"
    by (rule multiline_end_of_header [OF keyMatch_description])
       (simp_all add: trim_example keyMatch_indented knownKeys_def startsWith_def)
  then have "md_description (parseYamlFrontmatter ''description:\<newline>  Line one\<newline>  Line two'')
      = ''Line one Line two''"
    by (simp add: trim_example getMetadataValue_def)
  then show ?thesis
    by (simp add: parseSkillMd_def multiline_example_match)
qed



section \<open>Properties of the resolver and the aggregator\<close>

lemma mapAccum_all:
  "(\<And>s x. x \<in> set xs \<Longrightarrow> P (fst (f s x))) \<Longrightarrow> \<forall>y \<in> set (fst (mapAccum f s xs)). P y"
proof (induction xs arbitrary: s)
  case Nil
  then show ?case by simp
next
  case (Cons x xs)
  obtain y s1 where f: "f s x = (y, s1)" by (cases "f s x") auto
  obtain ys s2 where r: "mapAccum f s1 xs = (ys, s2)" by (cases "mapAccum f s1 xs") auto
  have "P y" using Cons.prems [of x s] f by simp
  moreover have "\<forall>y \<in> set ys. P y" using Cons.IH [of s1] Cons.prems r by simp
  ultimately show ?case using f r by simp
qed

lemma makeSkill_description:
  "description (makeSkill d nm sp content)
     = (if md_description (fst (parseSkillMd content)) \<noteq> []
        then md_description (fst (parseSkillMd content)) else ''No description available'')"
  by (simp add: makeSkill_def split: prod.splits)

lemma makeSkill_name:
  "name (makeSkill d nm sp content)
     = (if md_name (fst (parseSkillMd content)) \<noteq> [] then md_name (fst (parseSkillMd content)) else nm)"
  by (simp add: makeSkill_def split: prod.splits)

lemma makeSkill_fields:
  "skillPath (makeSkill d nm sp content) = sp" "source (makeSkill d nm sp content) = d"
  "fullContent (makeSkill d nm sp content) = Some content"
  by (simp_all add: makeSkill_def split: prod.splits)

lemma metadata_finish:
  "fetchSkillMetadataRaw_finish net w d nm sp t
     = (case fetchRawContent_finish net w t of
          (Inr content, w1) \<Rightarrow> (Some (makeSkill d nm sp content), w1)
        | (Inl e, w1) \<Rightarrow> (None, w1\<lparr>console := console w1 @ [''No SKILL.md found for '' @ nm]\<rparr>))"
  by (simp add: fetchSkillMetadataRaw_finish_def)

lemma finish_skill:
  "fst (fetchSkillMetadataRaw_finish net w d nm sp t) = Some s \<Longrightarrow> \<exists>content. s = makeSkill d nm sp content"
  by (auto simp: fetchSkillMetadataRaw_finish_def split: prod.splits sum.splits)

lemma set_map_filter_id: "set (List.map_filter id rs) = {s. Some s \<in> set rs}"
  by (induction rs) (auto simp: List.map_filter_def)

lemma finishRepo_skills:
  assumes "fst (finishRepo net w (d, ts)) = Inr skills" "s \<in> set skills"
  shows "\<exists>nm sp content. s = makeSkill d nm sp content"
proof -
  from assms(1) obtain tasks where ts: "ts = Manifests tasks"
    by (cases ts) (auto simp: finishRepo_def)
  let ?f = "\<lambda>w (sp, t). fetchSkillMetadataRaw_finish net w d (skillNameOf sp) sp t"
  have all: "\<forall>y \<in> set (fst (mapAccum ?f w tasks)). \<forall>s. y = Some s \<longrightarrow> (\<exists>nm sp content. s = makeSkill d nm sp content)"
    by (rule mapAccum_all) (auto dest!: finish_skill)
  from assms(1) ts have "skills = List.map_filter id (fst (mapAccum ?f w tasks))"
    by (auto simp: finishRepo_def split: prod.splits)
  with assms(2) have "Some s \<in> set (fst (mapAccum ?f w tasks))"
    by (simp add: set_map_filter_id)
  with all show ?thesis by blast
qed

lemma resolver_skills:
  assumes "fst (fetchSkillsFromRepo net w d) = Inr skills" "s \<in> set skills"
  shows "\<exists>nm sp content. s = makeSkill d nm sp content"
proof -
  obtain t1 w1 where 1: "startRepo w d = (t1, w1)" by (cases "startRepo w d") auto
  obtain t2 w2 where 2: "continueRepo net w1 (d, t1) = (t2, w2)"
    by (cases "continueRepo net w1 (d, t1)") auto
  from assms(1) 1 2 have "fst (finishRepo net w2 (d, t2)) = Inr skills"
    by (simp add: fetchSkillsFromRepo_def)
  then show ?thesis using assms(2) by (rule finishRepo_skills)
qed

lemma parseSkillMd_no_header:
  "frontmatterMatch content = None \<Longrightarrow> parseSkillMd content = (emptyMetadata, content)"
  by (simp add: parseSkillMd_def)

lemma installedEntry_description:
  assumes "installedEntry fs loc e = Some i"
  shows "inst_description i \<noteq> []
     \<and> (\<exists>nm content. e = (nm, 2) \<and> readSkillMd fs loc nm = Inr content
          \<and> inst_description i =
              (case snd (parseSkillMdMetadata content) of
                 Some x \<Rightarrow> if x \<noteq> [] then x else ''No description available''
               | None \<Rightarrow> ''No description available''))"
  using assms
  by (cases e) (auto simp: installedEntry_def split: if_splits sum.splits prod.splits option.splits)

lemma scan_entries:
  assumes "i \<in> set (scanInstalledSkills fs)"
  shows "\<exists>loc e. installedEntry fs loc e = Some i"
  using assms
  by (fastforce simp: scanInstalledSkills_def List.map_filter_def split: option.splits sum.splits)

lemma mapAccum_length: "length (fst (mapAccum f s xs)) = length xs"
proof (induction xs arbitrary: s)
  case Nil
  then show ?case by simp
next
  case (Cons x xs)
  obtain y s1 where f: "f s x = (y, s1)" by (cases "f s x") auto
  obtain ys s2 where r: "mapAccum f s1 xs = (ys, s2)" by (cases "mapAccum f s1 xs") auto
  from Cons.IH [of s1] r have "length ys = length xs" by simp
  with f r show ?case by simp
qed

lemma fulfilled_simps: "fulfilled (Inl e) = []" "fulfilled (Inr v) = v"
  by (simp_all add: fulfilled_def)

lemma failures_simps:
  "failures [] = []"
  "failures ((d, Inl reason) # prs) = (owner d @ ''/'' @ repo d @ '': '' @ reason) # failures prs"
  "failures ((d, Inr val) # prs) = failures prs"
  by (simp_all add: failures_def)

lemma collect_result:
  "\<exists>w'. collect (a, e, w) prs = (a @ concat (map (\<lambda>p. fulfilled (snd p)) prs), e @ failures prs, w')
        \<and> warnings w' = warnings w"
proof (induction prs arbitrary: a e w)
  case Nil
  then show ?case by (simp add: failures_simps)
next
  case (Cons p prs)
  obtain d r where p: "p = (d, r)" by (cases p) auto
  show ?case
  proof (cases r)
    case (Inl reason)
    let ?w = "w\<lparr>console := console w @
        [''Failed to fetch skills from '' @ owner d @ ''/'' @ repo d @ '': '' @ reason]\<rparr>"
    obtain w' where "collect (a, e @ [owner d @ ''/'' @ repo d @ '': '' @ reason], ?w) prs
        = (a @ concat (map (\<lambda>p. fulfilled (snd p)) prs),
           (e @ [owner d @ ''/'' @ repo d @ '': '' @ reason]) @ failures prs, w')"
        "warnings w' = warnings ?w"
      using Cons.IH by blast
    with p Inl show ?thesis by (simp add: fulfilled_simps failures_simps)
  next
    case (Inr val)
    obtain w' where "collect (a @ val, e, w) prs
        = ((a @ val) @ concat (map (\<lambda>p. fulfilled (snd p)) prs), e @ failures prs, w')"
        "warnings w' = warnings w"
      using Cons.IH by blast
    with p Inr show ?thesis by (simp add: fulfilled_simps failures_simps)
  qed
qed

lemma settleAll_length: "length (fst (settleAll net w ds)) = length ds"
proof -
  obtain ts1 w1 where 1: "mapAccum startRepo w ds = (ts1, w1)"
    by (cases "mapAccum startRepo w ds") auto
  obtain ts2 w2 where 2: "mapAccum (continueRepo net) w1 (zip ds ts1) = (ts2, w2)"
    by (cases "mapAccum (continueRepo net) w1 (zip ds ts1)") auto
  have l1: "length ts1 = length ds" using mapAccum_length [of startRepo w ds] 1 by simp
  have l2: "length ts2 = length ds"
    using mapAccum_length [of "continueRepo net" w1 "zip ds ts1"] 2 l1 by simp
  have "length (fst (mapAccum (finishRepo net) w2 (zip ds ts2))) = length ds"
    using l2 by (simp add: mapAccum_length)
  with 1 2 show ?thesis by (simp add: settleAll_def)
qed

lemma fetchAllSkills_result:
  "fst (fetchAllSkills net w ds) = concat (map fulfilled (fst (settleAll net w ds)))"
proof -
  obtain results w1 where s: "settleAll net w ds = (results, w1)"
    by (cases "settleAll net w ds") auto
  then have len: "length results = length ds" using settleAll_length [of net w ds] by simp
  obtain w2 where c: "collect ([], [], w1) (zip ds results)
      = ([] @ concat (map (\<lambda>p. fulfilled (snd p)) (zip ds results)), [] @ failures (zip ds results), w2)"
    using collect_result [of "[]" "[]" w1 "zip ds results"] by blast
  have "map (\<lambda>p. fulfilled (snd p)) (zip ds results) = map fulfilled results"
  proof -
    have "map (\<lambda>p. fulfilled (snd p)) (zip ds results) = map fulfilled (map snd (zip ds results))"
      by (simp add: comp_def)
    also have "\<dots> = map fulfilled results" using len by (simp only: map_snd_zip)
    finally show ?thesis .
  qed
  with s c show ?thesis
    by (simp add: fetchAllSkills_def split: option.splits)
qed

lemma fetchAllSkills_warnings:
  "warnings (snd (fetchAllSkills net w ds))
     = warnings (snd (settleAll net w ds))
       @ (case failureWarning (failures (zip ds (fst (settleAll net w ds)))) (fst (fetchAllSkills net w ds)) of
            Some msg \<Rightarrow> [msg] | None \<Rightarrow> [])"
proof -
  obtain results w1 where s: "settleAll net w ds = (results, w1)"
    by (cases "settleAll net w ds") auto
  obtain w2 where c: "collect ([], [], w1) (zip ds results)
      = ([] @ concat (map (\<lambda>p. fulfilled (snd p)) (zip ds results)), [] @ failures (zip ds results), w2)"
      and w2: "warnings w2 = warnings w1"
    using collect_result [of "[]" "[]" w1 "zip ds results"] by blast
  show ?thesis using s c w2
    by (simp add: fetchAllSkills_def split: option.splits)
qed

lemma failures_nonempty: "failures prs \<noteq> [] \<longleftrightarrow> (\<exists>p \<in> set prs. isl (snd p))"
proof (induction prs)
  case Nil
  then show ?case by (simp add: failures_simps)
next
  case (Cons p prs)
  then show ?case by (cases p; cases "snd p") (auto simp: failures_simps)
qed

lemma failures_length: "length (failures prs) = length (filter (isl \<circ> snd) prs)"
proof (induction prs)
  case Nil
  then show ?case by (simp add: failures_simps)
next
  case (Cons p prs)
  then show ?case by (cases p; cases "snd p") (auto simp: failures_simps)
qed

lemma failures_first:
  "failures prs \<noteq> [] \<Longrightarrow>
   \<exists>pre d reason post. prs = pre @ (d, Inl reason) # post \<and> (\<forall>p \<in> set pre. \<not> isl (snd p))
      \<and> hd (failures prs) = owner d @ ''/'' @ repo d @ '': '' @ reason"
proof (induction prs)
  case Nil
  then show ?case by (simp add: failures_simps)
next
  case (Cons p prs)
  obtain d r where p: "p = (d, r)" by (cases p) auto
  show ?case
  proof (cases r)
    case (Inl reason)
    with p have "p # prs = [] @ (d, Inl reason) # prs"
      "hd (failures (p # prs)) = owner d @ ''/'' @ repo d @ '': '' @ reason"
      by (simp_all add: failures_simps)
    then show ?thesis by (metis empty_iff list.set(1))
  next
    case (Inr val)
    with p have f: "failures (p # prs) = failures prs" by (simp add: failures_simps)
    with Cons obtain pre d' reason post where
      "prs = pre @ (d', Inl reason) # post" "\<forall>p \<in> set pre. \<not> isl (snd p)"
      "hd (failures prs) = owner d' @ ''/'' @ repo d' @ '': '' @ reason"
      by auto
    with p Inr f have "p # prs = (p # pre) @ (d', Inl reason) # post"
      "\<forall>q \<in> set (p # pre). \<not> isl (snd q)"
      "hd (failures (p # prs)) = owner d' @ ''/'' @ repo d' @ '': '' @ reason"
      by auto
    then show ?thesis by blast
  qed
qed

lemmas resolver_defs =
  settleAll_def startRepo_def continueRepo_def finishRepo_def fetchSkillsFromRepo_def
  fetchSkillMetadataRaw_start_def fetchSkillMetadataRaw_finish_def
  fetchRawContent_start_def fetchRawContent_finish_def
  fetchRepoTree_start_def fetchRepoTree_finish_def checkRateLimit_def
  getFromCache_def setCache_def rawKey_def treeKey_def RAW_URL_def BASE_URL_def
  List.map_filter_def Let_def

lemmas ex_defs =
  exNet_def exClient_def exSingle_def exGone_def exSkills_def exOther_def exNotFound_def exOk_def

lemma ex_settle_single_gone:
  "fst (settleAll exNet exClient [exSingle, exGone])
     = [Inr [], Inl ''Error: Repository or branch not found: o/gone@main'']"
  by (simp add: resolver_defs ex_defs)

lemma ex_warnings_single_gone:
  "warnings (snd (settleAll exNet exClient [exSingle, exGone])) = []"
  by (simp add: resolver_defs ex_defs)

lemma ex_settle_gone_twice:
  "fst (settleAll exNet exClient [exGone, exSingle, exGone])
     = [Inl ''Error: Repository or branch not found: o/gone@main'', Inr [],
        Inl ''Error: Repository or branch not found: o/gone@main'']"
  by (simp add: resolver_defs ex_defs)

lemma ex_warnings_gone_twice:
  "warnings (snd (settleAll exNet exClient [exGone, exSingle, exGone])) = []"
  by (simp add: resolver_defs ex_defs)

lemma ex_skillPaths: "skillPaths exSkills exTree = [''skills/a'', ''skills/b'']"
  by (simp add: skillPaths_def skillMdFiles_def exSkills_def exTree_def exItem_def
      startsWith_def endsWith_def substring_def Let_def)

lemma ex_names: "skillNameOf ''skills/a'' = ''a''" "skillNameOf ''skills/b'' = ''b''"
  "skillNameOf ''other'' = ''other''" "skillNameOf ''my-skill'' = ''my-skill''"
  by (simp_all add: skillNameOf_def)

lemma ex_settle_three:
  "fst (settleAll exNet exClient [exSkills, exGone, exOther])
     = [Inr [makeSkill exSkills ''a'' ''skills/a'' ''---\<newline>name: Alpha\<newline>---\<newline>Body'',
             makeSkill exSkills ''b'' ''skills/b'' []],
        Inl ''Error: Repository or branch not found: o/gone@main'',
        Inr [makeSkill exOther ''other'' ''other'' ''no header'']]"
proof -
  have o: "owner exSkills = ''o''" "repo exSkills = ''r''" "branch exSkills = ''main''"
    "singleSkill exSkills = None" "owner exOther = ''o''" "repo exOther = ''r''"
    "branch exOther = ''main''" "singleSkill exOther = Some True" "path exOther = ''other''"
    "owner exGone = ''o''" "repo exGone = ''gone''" "branch exGone = ''main''"
    "singleSkill exGone = None"
    by (simp_all add: exSkills_def exOther_def exGone_def)
  have t: "truncated exTree = False" by (simp add: exTree_def)
  show ?thesis
    by (simp add: resolver_defs o t ex_skillPaths ex_names exNet_def exClient_def exOk_def
        exNotFound_def)
qed

lemma ex_parse_alpha:
  "parseSkillMd ''---\<newline>name: Alpha\<newline>---\<newline>Body''
     = (emptyMetadata\<lparr>md_name := ''Alpha''\<rparr>, ''Body'')"
proof -
  have m: "frontmatterMatch ''---\<newline>name: Alpha\<newline>---\<newline>Body'' = Some (''name: Alpha'', ''Body'')"
    by (simp add: frontmatterMatch_def dashes_def startsWith_def closeDelim_def)
  have k: "keyMatch ''name: Alpha'' = Some (''name'', ''Alpha'')"
    by (simp add: keyMatch_def isWordChar_def isSpace_def isLineTerminator_def)
  have t: "trim ''Alpha'' = ''Alpha''" by (simp add: trim_def isSpace_def)
  have "parseYamlFrontmatter ''name: Alpha'' = emptyMetadata\<lparr>md_name := ''Alpha''\<rparr>"
    by (simp add: parseYamlFrontmatter_def frontmatterStep_def commitMultiline_def k t
        setMetadataValue_def)
  with m show ?thesis by (simp add: parseSkillMd_def)
qed

lemma ex_parse_plain:
  "parseSkillMd [] = (emptyMetadata, [])" "parseSkillMd ''no header'' = (emptyMetadata, ''no header'')"
  by (simp_all add: parseSkillMd_def frontmatterMatch_def dashes_def startsWith_def)

text \<open>
  Claim C1.  \<open>fetchAllSkills\<close> always returns a list: the fulfilled values of the settled
  resolutions, one per descriptor, concatenated in the order of the descriptors; a rejected
  resolution adds nothing.
\<close>

theorem fetchAllSkills_merges:
  "fst (fetchAllSkills net w ds) = concat (map fulfilled (fst (settleAll net w ds)))
   \<and> length (fst (settleAll net w ds)) = length ds
   \<and> fulfilled (Inl reason) = [] \<and> fulfilled (Inr val) = val"
  by (simp add: fetchAllSkills_result settleAll_length fulfilled_simps)

theorem fetchAllSkills_merges_witness:
  "map name (fst (fetchAllSkills exNet exClient [exSkills, exGone, exOther])) = [''Alpha'', ''b'', ''other'']
   \<and> map skillPath (fst (fetchAllSkills exNet exClient [exSkills, exGone, exOther]))
       = [''skills/a'', ''skills/b'', ''other'']"
  using fetchAllSkills_merges [of exNet exClient "[exSkills, exGone, exOther]", THEN conjunct1]
  by (simp add: ex_settle_three fulfilled_simps makeSkill_name makeSkill_fields
      ex_parse_alpha ex_parse_plain emptyMetadata_def)

lemma ex_gone_fields: "owner exGone = ''o''" "repo exGone = ''gone''"
  by (simp_all add: exGone_def)

lemma zip_snd_set: "length ds = length rs \<Longrightarrow> (\<exists>p \<in> set (zip ds rs). P (snd p)) \<longleftrightarrow> (\<exists>r \<in> set rs. P r)"
proof -
  assume "length ds = length rs"
  then have "map snd (zip ds rs) = rs" by simp
  then have "set rs = snd ` set (zip ds rs)" by (metis set_map)
  then show ?thesis by auto
qed

lemma zip_snd_filter:
  "length ds = length rs \<Longrightarrow> length (filter (P \<circ> snd) (zip ds rs)) = length (filter P rs)"
proof -
  assume "length ds = length rs"
  then have "map snd (zip ds rs) = rs" by simp
  then have "filter P rs = map snd (filter (P \<circ> snd) (zip ds rs))"
    by (metis filter_map)
  then show ?thesis by simp
qed

text \<open>
  Claim C2, as stated, fails: the single-skill descriptor \<open>exSingle\<close> has no manifest, so its
  resolution succeeds with no skill; \<open>exGone\<close> fails; and the warning is shown although a
  descriptor succeeded.
\<close>

theorem warning_although_one_succeeded:
  "fst (settleAll exNet exClient [exSingle, exGone])
     = [Inr [], Inl ''Error: Repository or branch not found: o/gone@main'']
   \<and> warnings (snd (fetchAllSkills exNet exClient [exSingle, exGone]))
     = [''Failed to fetch some skills: o/gone: Error: Repository or branch not found: o/gone@main'']"
  by (simp add: ex_settle_single_gone fetchAllSkills_warnings ex_warnings_single_gone
      fetchAllSkills_result fulfilled_simps failures_simps failureWarning_def
      ex_gone_fields)

text \<open>
  Claim C2, amended.  After the resolutions have settled, \<open>fetchAllSkills\<close> shows one more
  warning if and only if at least one resolution failed and the merged list is empty.  The
  warning names the first failing repository with its error and, when more than one
  resolution failed, the number of the other failures.  When the merged list is not empty
  no such warning is shown, whatever failed; a resolution that succeeds with no skill does
  not prevent the warning.
\<close>

theorem failure_warning_iff:
  assumes "results = fst (settleAll net w ds)"
      and "errors = failures (zip ds results)"
      and "allSkills = fst (fetchAllSkills net w ds)"
  shows "warnings (snd (fetchAllSkills net w ds))
           = warnings (snd (settleAll net w ds))
             @ (if (\<exists>r \<in> set results. isl r) \<and> allSkills = []
                then [''Failed to fetch some skills: '' @ hd errors
                      @ (if length errors > 1 then '' (+'' @ showNat (length errors - 1) @ '' more)''
                         else [])]
                else [])
       \<and> length errors = length (filter isl results)
       \<and> ((\<exists>r \<in> set results. isl r) \<longrightarrow>
            (\<exists>pre d reason post. zip ds results = pre @ (d, Inl reason) # post
               \<and> (\<forall>p \<in> set pre. \<not> isl (snd p))
               \<and> hd errors = owner d @ ''/'' @ repo d @ '': '' @ reason))"
proof -
  have len: "length ds = length results" using assms(1) by (simp add: settleAll_length)
  have ne: "errors \<noteq> [] \<longleftrightarrow> (\<exists>r \<in> set results. isl r)"
    using assms(2) zip_snd_set [OF len, of isl] by (simp add: failures_nonempty)
  have n: "length errors = length (filter isl results)"
    using assms(2) zip_snd_filter [OF len, of isl] by (simp add: failures_length)
  have first: "\<exists>pre d reason post. zip ds results = pre @ (d, Inl reason) # post
               \<and> (\<forall>p \<in> set pre. \<not> isl (snd p))
               \<and> hd errors = owner d @ ''/'' @ repo d @ '': '' @ reason"
    if "\<exists>r \<in> set results. isl r"
    using that ne assms(2) failures_first [of "zip ds results"] by simp
  have "warnings (snd (fetchAllSkills net w ds))
      = warnings (snd (settleAll net w ds))
        @ (case failureWarning errors allSkills of Some msg \<Rightarrow> [msg] | None \<Rightarrow> [])"
    using assms by (simp add: fetchAllSkills_warnings)
  moreover have "(case failureWarning errors allSkills of Some msg \<Rightarrow> [msg] | None \<Rightarrow> [])
      = (if (\<exists>r \<in> set results. isl r) \<and> allSkills = []
         then [''Failed to fetch some skills: '' @ hd errors
               @ (if length errors > 1 then '' (+'' @ showNat (length errors - 1) @ '' more)''
                  else [])]
         else [])"
    using ne by (auto simp: failureWarning_def)
  ultimately show ?thesis using n first by simp
qed

theorem failure_warning_iff_witness:
  "warnings (snd (fetchAllSkills exNet exClient [exGone, exSingle, exGone]))
     = [''Failed to fetch some skills: o/gone: Error: Repository or branch not found: o/gone@main (+1 more)'']"
proof -
  let ?ds = "[exGone, exSingle, exGone]"
  have a: "fst (fetchAllSkills exNet exClient ?ds) = []"
    by (simp add: fetchAllSkills_result ex_settle_gone_twice fulfilled_simps)
  have e: "failures [(exGone, Inl ''Error: Repository or branch not found: o/gone@main''),
        (exSingle, Inr []),
        (exGone, Inl ''Error: Repository or branch not found: o/gone@main'')]
      = [''o/gone: Error: Repository or branch not found: o/gone@main'',
         ''o/gone: Error: Repository or branch not found: o/gone@main'']"
    by (simp add: failures_simps ex_gone_fields)
  have s: "showNat 1 = ''1''" "showNat (Suc 0) = ''1''" by (simp_all add: showNat_def)
  show ?thesis
    using failure_warning_iff [OF refl refl refl, of exNet exClient ?ds, THEN conjunct1]
    by (simp add: a e s ex_settle_gone_twice ex_warnings_gone_twice)
qed

lemma split_ne: "split d p \<noteq> []"
  by (induction p) (auto split: list.splits)

lemma split_decomp:
  "(split d p = [p] \<and> d \<notin> set p)
   \<or> (\<exists>pre. p = pre @ d # last (split d p) \<and> length (split d p) > 1)"
proof (induction p)
  case Nil
  then show ?case by simp
next
  case (Cons c cs)
  obtain x xs where s: "split d cs = x # xs" using split_ne [of d cs] by (cases "split d cs") auto
  show ?case
  proof (cases "c = d")
    case True
    from Cons show ?thesis
    proof
      assume "split d cs = [cs] \<and> d \<notin> set cs"
      with True have "c # cs = [] @ d # last (split d (c # cs))" by simp
      with True s show ?thesis by fastforce
    next
      assume "\<exists>pre. cs = pre @ d # last (split d cs) \<and> length (split d cs) > 1"
      then obtain pre where "cs = pre @ d # last (split d cs)" by blast
      with True s have "c # cs = (d # pre) @ d # last (split d (c # cs))" by simp
      with True s show ?thesis by fastforce
    qed
  next
    case False
    from Cons show ?thesis
    proof
      assume "split d cs = [cs] \<and> d \<notin> set cs"
      with False show ?thesis by simp
    next
      assume "\<exists>pre. cs = pre @ d # last (split d cs) \<and> length (split d cs) > 1"
      then obtain pre where p: "cs = pre @ d # last (split d cs)" and l: "length (split d cs) > 1"
        by blast
      from l s have xs: "xs \<noteq> []" by auto
      with s False have "last (split d (c # cs)) = last (split d cs)" by simp
      with p have "c # cs = (c # pre) @ d # last (split d (c # cs))" by simp
      moreover from s False xs have "length (split d (c # cs)) > 1" by (cases xs) auto
      ultimately show ?thesis by blast
    qed
  qed
qed

lemma split_last_no_sep: "d \<notin> set (last (split d p))"
proof (induction p)
  case Nil
  then show ?case by simp
next
  case (Cons c cs)
  obtain x xs where s: "split d cs = x # xs" using split_ne [of d cs] by (cases "split d cs") auto
  with Cons show ?case by (cases "xs = []") auto
qed

lemma split_last_empty: "last (split d p) = [] \<longleftrightarrow> p = [] \<or> last p = d"
proof
  assume e: "last (split d p) = []"
  from split_decomp [of d p] show "p = [] \<or> last p = d"
  proof
    assume "split d p = [p] \<and> d \<notin> set p"
    with e show ?thesis by simp
  next
    assume "\<exists>pre. p = pre @ d # last (split d p) \<and> length (split d p) > 1"
    then obtain pre where "p = pre @ d # last (split d p)" by blast
    with e have "p = pre @ [d]" by simp
    then show ?thesis by (metis last_snoc)
  qed
next
  assume a: "p = [] \<or> last p = d"
  show "last (split d p) = []"
  proof (cases "p = []")
    case True
    then show ?thesis by simp
  next
    case False
    with a have ld: "last p = d" by simp
    from split_decomp [of d p] show ?thesis
    proof
      assume "split d p = [p] \<and> d \<notin> set p"
      with False ld show ?thesis using last_in_set by metis
    next
      assume "\<exists>pre. p = pre @ d # last (split d p) \<and> length (split d p) > 1"
      then obtain pre where p: "p = pre @ d # last (split d p)" by blast
      show ?thesis
      proof (rule ccontr)
        assume ne: "last (split d p) \<noteq> []"
        with p have "last p = last (last (split d p))" by (metis last_ConsR last_appendR list.distinct(1))
        with ne have "last p \<in> set (last (split d p))" by simp
        with ld show False using split_last_no_sep [of d p] by simp
      qed
    qed
  qed
qed

lemma skillNameOf_basename:
  assumes "p \<noteq> []" "last p \<noteq> CHR ''/''"
  shows "skillNameOf p \<noteq> [] \<and> CHR ''/'' \<notin> set (skillNameOf p)
     \<and> (p = skillNameOf p \<or> (\<exists>pre. p = pre @ ''/'' @ skillNameOf p))"
proof -
  have ne: "last (split (CHR ''/'') p) \<noteq> []" using assms by (simp add: split_last_empty)
  then have n: "skillNameOf p = last (split (CHR ''/'') p)" by (simp add: skillNameOf_def)
  from split_decomp [of "CHR ''/''" p]
  have "p = skillNameOf p \<or> (\<exists>pre. p = pre @ ''/'' @ skillNameOf p)"
    using n by auto
  with ne n show ?thesis using split_last_no_sep [of "CHR ''/''" p] by simp
qed

lemma metadata_raw:
  "fetchSkillMetadataRaw net w d nm sp
     = (case fetchRawContent net w (owner d) (repo d) (sp @ ''/SKILL.md'') (branch d) of
          (Inr content, w1) \<Rightarrow> (Some (makeSkill d nm sp content), w1)
        | (Inl e, w1) \<Rightarrow> (None, w1\<lparr>console := console w1 @ [''No SKILL.md found for '' @ nm]\<rparr>))"
  by (simp add: fetchSkillMetadataRaw_def fetchSkillMetadataRaw_start_def fetchRawContent_def
      fetchSkillMetadataRaw_finish_def split: prod.splits)


lemma finishRepo_built: "builtResult (fst (finishRepo net st x))"
proof -
  obtain d t where x: "x = (d, t)" by (cases x) auto
  show ?thesis
    unfolding builtResult_def builtSkill_def x
    using finishRepo_skills [of net st d t] by blast
qed

lemma settleAll_built:
  "\<forall>r \<in> set (fst (settleAll net w ds)). builtResult r"
proof -
  obtain ts1 w1 where 1: "mapAccum startRepo w ds = (ts1, w1)"
    by (cases "mapAccum startRepo w ds") auto
  obtain ts2 w2 where 2: "mapAccum (continueRepo net) w1 (zip ds ts1) = (ts2, w2)"
    by (cases "mapAccum (continueRepo net) w1 (zip ds ts1)") auto
  have "\<forall>y \<in> set (fst (mapAccum (finishRepo net) w2 (zip ds ts2))). builtResult y"
    by (rule mapAccum_all [where P = builtResult and f = "finishRepo net"])
       (rule finishRepo_built)
  moreover have "fst (settleAll net w ds) = fst (mapAccum (finishRepo net) w2 (zip ds ts2))"
    using 1 2 by (simp add: settleAll_def)
  ultimately show ?thesis by simp
qed

lemma settleAll_skills:
  assumes "r \<in> set (fst (settleAll net w ds))" "r = Inr skills" "s \<in> set skills"
  shows "\<exists>d nm sp content. s = makeSkill d nm sp content"
  using settleAll_built [of net w ds] assms
  unfolding builtResult_def builtSkill_def by blast

lemma fetchAllSkills_skills:
  assumes "s \<in> set (fst (fetchAllSkills net w ds))"
  shows "\<exists>d nm sp content. s = makeSkill d nm sp content"
proof -
  from assms have "\<exists>r \<in> set (fst (settleAll net w ds)). s \<in> set (fulfilled r)"
    by (simp add: fetchAllSkills_result)
  then obtain r where r: "r \<in> set (fst (settleAll net w ds))" "s \<in> set (fulfilled r)"
    by blast
  show ?thesis
  proof (cases r)
    case (Inl e)
    with r(2) show ?thesis by (simp add: fulfilled_simps)
  next
    case (Inr skills)
    with r(2) have "s \<in> set skills" by (simp add: fulfilled_simps)
    with r(1) Inr show ?thesis by (rule settleAll_skills)
  qed
qed

lemma metadata_raw_skill:
  "fst (fetchSkillMetadataRaw net w d nm sp) = Some s \<Longrightarrow> \<exists>content. s = makeSkill d nm sp content"
  by (auto simp: metadata_raw split: prod.splits sum.splits)

lemma makeSkill_described:
  "description (makeSkill d nm sp content) \<noteq> []
   \<and> fullContent (makeSkill d nm sp content) = Some content
   \<and> description (makeSkill d nm sp content)
       = (if md_description (fst (parseSkillMd content)) = [] then ''No description available''
          else md_description (fst (parseSkillMd content)))
   \<and> (frontmatterMatch content = None \<longrightarrow>
        description (makeSkill d nm sp content) = ''No description available'')"
  by (simp add: makeSkill_description makeSkill_fields parseSkillMd_no_header emptyMetadata_def)

text \<open>
  Claim C10.  Every skill that the resolver produces (from \<open>fetchSkillMetadataRaw\<close>, from a
  resolution, from \<open>fetchAllSkills\<close>) has a description that is not empty: it is the
  description of the parsed manifest, or \<open>No description available\<close> when that is empty, as it
  is for a manifest without a header.  Every installed skill of the scan has a description
  that is not empty either: the one found by its parser, or the same default when none is
  found or it is empty.
\<close>

theorem description_never_empty:
  "(s \<in> set (fst (fetchAllSkills net w ds))
      \<or> (fst (fetchSkillsFromRepo net w d) = Inr skills \<and> s \<in> set skills)
      \<or> fst (fetchSkillMetadataRaw net w d nm sp) = Some s
    \<longrightarrow> description s \<noteq> []
        \<and> (\<exists>content. fullContent s = Some content
              \<and> description s
                  = (if md_description (fst (parseSkillMd content)) = []
                     then ''No description available''
                     else md_description (fst (parseSkillMd content)))
              \<and> (frontmatterMatch content = None \<longrightarrow> description s = ''No description available'')))
   \<and> (i \<in> set (scanInstalledSkills fs)
    \<longrightarrow> inst_description i \<noteq> []
        \<and> (\<exists>loc dir content. readSkillMd fs loc dir = Inr content
              \<and> inst_description i =
                  (case snd (parseSkillMdMetadata content) of
                     Some x \<Rightarrow> if x \<noteq> [] then x else ''No description available''
                   | None \<Rightarrow> ''No description available'')))"
proof (intro conjI impI)
  assume a: "s \<in> set (fst (fetchAllSkills net w ds))
      \<or> (fst (fetchSkillsFromRepo net w d) = Inr skills \<and> s \<in> set skills)
      \<or> fst (fetchSkillMetadataRaw net w d nm sp) = Some s"
  have m: "\<exists>d nm sp content. s = makeSkill d nm sp content"
  proof -
    consider "s \<in> set (fst (fetchAllSkills net w ds))"
      | "fst (fetchSkillsFromRepo net w d) = Inr skills" "s \<in> set skills"
      | "fst (fetchSkillMetadataRaw net w d nm sp) = Some s"
      using a by blast
    then show ?thesis
    proof cases
      case 1
      then show ?thesis by (rule fetchAllSkills_skills)
    next
      case 2
      then have "\<exists>nm sp content. s = makeSkill d nm sp content" by (rule resolver_skills)
      then show ?thesis by blast
    next
      case 3
      then have "\<exists>content. s = makeSkill d nm sp content" by (rule metadata_raw_skill)
      then show ?thesis by blast
    qed
  qed
  from m show "description s \<noteq> []" using makeSkill_described by blast
  from m show "\<exists>content. fullContent s = Some content
              \<and> description s
                  = (if md_description (fst (parseSkillMd content)) = []
                     then ''No description available''
                     else md_description (fst (parseSkillMd content)))
              \<and> (frontmatterMatch content = None \<longrightarrow> description s = ''No description available'')"
    using makeSkill_described by blast
next
  assume "i \<in> set (scanInstalledSkills fs)"
  then obtain loc e where e: "installedEntry fs loc e = Some i" using scan_entries by blast
  from installedEntry_description [OF e] show "inst_description i \<noteq> []" by blast
  from installedEntry_description [OF e]
  show "\<exists>loc dir content. readSkillMd fs loc dir = Inr content
              \<and> inst_description i =
                  (case snd (parseSkillMdMetadata content) of
                     Some x \<Rightarrow> if x \<noteq> [] then x else ''No description available''
                   | None \<Rightarrow> ''No description available'')"
    by blast
qed

lemma ex_scan_entry:
  "installedEntry exFs ''.github/skills'' (''pdf'', 2)
     = Some \<lparr>inst_name = ''pdf'', inst_description = ''No description available'',
         location = ''.github/skills/pdf'', installedAt = ''2026-01-01T00:00:00.000Z''\<rparr>"
  "installedEntry exFs ''.github/skills'' (''notes.txt'', Suc 0) = None"
  by (simp_all add: exFs_def installedEntry_def parseSkillMdMetadata_def
      frontmatterMatchInstalled_def dashes_def startsWith_def)

lemma ex_scan:
  "scanInstalledSkills exFs
     = [\<lparr>inst_name = ''pdf'', inst_description = ''No description available'',
         location = ''.github/skills/pdf'', installedAt = ''2026-01-01T00:00:00.000Z''\<rparr>]"
proof -
  have d: "readDirectory exFs ''.github/skills'' = Inr [(''pdf'', 2), (''notes.txt'', 1)]"
    "readDirectory exFs ''.claude/skills'' = Inl ''FileNotFound''"
    "workspaceFolder exFs = Some ''/ws''"
    by (simp_all add: exFs_def)
  show ?thesis
    by (simp add: scanInstalledSkills_def locations_def d ex_scan_entry List.map_filter_def)
qed

theorem description_never_empty_witness:
  "makeSkill exSkills ''b'' ''skills/b'' [] \<in> set (fst (fetchAllSkills exNet exClient [exSkills, exGone, exOther]))
   \<and> description (makeSkill exSkills ''b'' ''skills/b'' []) = ''No description available''
   \<and> inst_description (hd (scanInstalledSkills exFs)) \<noteq> []"
proof -
  let ?s = "makeSkill exSkills ''b'' ''skills/b'' []"
  have m: "?s \<in> set (fst (fetchAllSkills exNet exClient [exSkills, exGone, exOther]))"
    by (simp add: fetchAllSkills_result ex_settle_three fulfilled_simps)
  have f: "fullContent ?s = Some []" by (simp add: makeSkill_fields)
  have p: "md_description (fst (parseSkillMd [])) = []"
    by (simp add: ex_parse_plain emptyMetadata_def)
  from description_never_empty [THEN conjunct1, of ?s exNet exClient "[exSkills, exGone, exOther]"] m
  have "\<exists>content. fullContent ?s = Some content
      \<and> description ?s = (if md_description (fst (parseSkillMd content)) = []
                     then ''No description available''
                     else md_description (fst (parseSkillMd content)))"
    by blast
  with f p have d: "description ?s = ''No description available''" by auto
  have "hd (scanInstalledSkills exFs) \<in> set (scanInstalledSkills exFs)"
    by (simp only: ex_scan list.sel list.set insertI1)
  then have "inst_description (hd (scanInstalledSkills exFs)) \<noteq> []"
    using description_never_empty [THEN conjunct2, of "hd (scanInstalledSkills exFs)" exFs] by blast
  with m d show ?thesis by blast
qed

section \<open>Selection of the manifests of a listing\<close>

lemma startsWith_iff: "startsWith s p \<longleftrightarrow> (\<exists>rest. s = p @ rest)"
proof
  assume "startsWith s p"
  then have "s = p @ drop (length p) s" unfolding startsWith_def by (metis append_take_drop_id)
  then show "\<exists>rest. s = p @ rest" ..
next
  assume "\<exists>rest. s = p @ rest"
  then show "startsWith s p" by (auto simp: startsWith_def)
qed

lemma endsWith_iff: "endsWith s p \<longleftrightarrow> (\<exists>pre. s = pre @ p)"
proof
  assume "endsWith s p"
  then have "s = take (length s - length p) s @ p"
    unfolding endsWith_def by (metis append_take_drop_id)
  then show "\<exists>pre. s = pre @ p" ..
next
  assume "\<exists>pre. s = pre @ p"
  then show "endsWith s p" by (auto simp: endsWith_def)
qed

lemma split_no_sep: "d \<notin> set s \<Longrightarrow> split d s = [s]"
  by (induction s) auto

lemma split_append_sep: "split d (pre @ d # rest) = split d pre @ split d rest"
proof (induction pre)
  case Nil
  then show ?case by simp
next
  case (Cons c pre)
  obtain y ys where y: "split d pre = y # ys" using split_ne [of d pre] by (cases "split d pre") auto
  with Cons show ?case by simp
qed

lemma last_split_suffix: "d \<notin> set l \<Longrightarrow> last (split d (pre @ d # l)) = l"
  by (simp add: split_append_sep split_no_sep)

lemma manifest_suffix_iff:
  assumes "startsWith p (q @ ''/'')"
  shows "endsWith p ''/SKILL.md'' \<longleftrightarrow> last (split (CHR ''/'') p) = ''SKILL.md''"
proof
  assume "endsWith p ''/SKILL.md''"
  then obtain pre where "p = pre @ CHR ''/'' # ''SKILL.md''" by (auto simp: endsWith_iff)
  then show "last (split (CHR ''/'') p) = ''SKILL.md''"
    using last_split_suffix [of "CHR ''/''" "''SKILL.md''" pre] by simp
next
  assume l: "last (split (CHR ''/'') p) = ''SKILL.md''"
  from assms have "CHR ''/'' \<in> set p" by (auto simp: startsWith_iff)
  with split_decomp [of "CHR ''/''" p] l obtain pre where "p = pre @ CHR ''/'' # ''SKILL.md''"
    by auto
  then show "endsWith p ''/SKILL.md''" by (auto simp: endsWith_iff)
qed

lemma skillMdFiles_selection:
  "skillMdFiles d t
     = filter (\<lambda>item. item_type item = Blob
                    \<and> (\<exists>rest. item_path item = path d @ ''/'' @ rest)
                    \<and> last (split (CHR ''/'') (item_path item)) = ''SKILL.md'') (tree t)"
  unfolding skillMdFiles_def
proof (rule filter_cong [OF refl])
  fix item
  show "(item_type item = Blob \<and> startsWith (item_path item) (path d @ ''/'')
          \<and> endsWith (item_path item) ''/SKILL.md'')
      = (item_type item = Blob \<and> (\<exists>rest. item_path item = path d @ ''/'' @ rest)
          \<and> last (split (CHR ''/'') (item_path item)) = ''SKILL.md'')"
    using manifest_suffix_iff [of "item_path item" "path d"]
      startsWith_iff [of "item_path item" "path d @ ''/''"]
    by auto
qed

lemma lastIndexOf_none: "d \<notin> set l \<Longrightarrow> lastIndexOf l d = -1"
  by (induction l) (auto simp: Let_def)

lemma lastIndexOf_append: "d \<notin> set l \<Longrightarrow> lastIndexOf (pre @ d # l) d = int (length pre)"
  by (induction pre) (auto simp: Let_def lastIndexOf_none)

lemma substring_prefix: "substring (pre @ rest) 0 (int (length pre)) = pre"
  by (simp add: substring_def Let_def)

lemma skill_directory:
  assumes "endsWith p ''/SKILL.md''"
  shows "substring p 0 (lastIndexOf p (CHR ''/'')) @ ''/SKILL.md'' = p"
proof -
  from assms obtain pre where p: "p = pre @ CHR ''/'' # ''SKILL.md''" by (auto simp: endsWith_iff)
  have "lastIndexOf p (CHR ''/'') = int (length pre)"
    unfolding p by (rule lastIndexOf_append) simp
  moreover have "substring p 0 (int (length pre)) = pre"
    unfolding p by (rule substring_prefix)
  ultimately show ?thesis using p by simp
qed

lemma skillPaths_directories:
  "map (\<lambda>sp. sp @ ''/SKILL.md'') (skillPaths d t) = map item_path (skillMdFiles d t)"
proof -
  have "\<forall>item \<in> set (skillMdFiles d t). endsWith (item_path item) ''/SKILL.md''"
    by (simp add: skillMdFiles_def)
  then show ?thesis
    by (simp add: skillPaths_def skill_directory)
qed

lemma sameLookups_refl: "sameLookups w w"
  by (simp add: sameLookups_def)

lemma sameLookups_trans: "sameLookups a b \<Longrightarrow> sameLookups b c \<Longrightarrow> sameLookups a c"
  by (simp add: sameLookups_def)

lemma getFromCache_same: "sameLookups w (snd (getFromCache w key))"
  by (auto simp: sameLookups_def getFromCache_def Let_def split: option.splits)

lemma requests_same: "sameLookups w (w\<lparr>requests := r\<rparr>)"
  by (simp add: sameLookups_def getFromCache_def Let_def split: option.splits)

lemma raw_start_task:
  "fst (fetchRawContent_start w ow rp pa br)
     = (case fst (getFromCache w (rawKey ow rp pa br)) of
          Some (CachedRaw c) \<Rightarrow>
            if c \<noteq> [] then RawHit c
            else RawWait (rawKey ow rp pa br) (RAW_URL @ ''/'' @ ow @ ''/'' @ rp @ ''/'' @ br @ ''/'' @ pa)
        | Some (CachedTree t) \<Rightarrow> RawBad
        | None \<Rightarrow> RawWait (rawKey ow rp pa br) (RAW_URL @ ''/'' @ ow @ ''/'' @ rp @ ''/'' @ br @ ''/'' @ pa))"
  by (simp add: fetchRawContent_start_def Let_def split: prod.splits option.splits cached.splits)

lemma raw_start_same: "sameLookups w (snd (fetchRawContent_start w ow rp pa br))"
proof -
  let ?k = "rawKey ow rp pa br"
  obtain c w1 where g: "getFromCache w ?k = (c, w1)" by (cases "getFromCache w ?k") auto
  then have 1: "sameLookups w w1" using getFromCache_same [of w ?k] by simp
  have "snd (fetchRawContent_start w ow rp pa br) = w1
      \<or> (\<exists>r. snd (fetchRawContent_start w ow rp pa br) = w1\<lparr>requests := r\<rparr>)"
    using g by (auto simp: fetchRawContent_start_def Let_def split: option.splits cached.splits)
  then show ?thesis using 1 requests_same sameLookups_trans by metis
qed

lemma raw_start_fst:
  "sameLookups w w' \<Longrightarrow>
   fst (fetchRawContent_start w ow rp pa br) = fst (fetchRawContent_start w' ow rp pa br)"
  by (simp add: raw_start_task sameLookups_def)

lemma raw_finish_fst:
  "fst (fetchRawContent_finish net w t) = fst (fetchRawContent_finish net w' t)"
  by (simp add: fetchRawContent_finish_def split: raw_task.splits fetched.splits sum.splits)

lemma metadata_finish_fst:
  "fst (fetchSkillMetadataRaw_finish net w d nm sp t) = fst (fetchSkillMetadataRaw_finish net w' d nm sp t)"
proof -
  obtain r w1 where a: "fetchRawContent_finish net w t = (r, w1)"
    by (cases "fetchRawContent_finish net w t") auto
  obtain r' w1' where b: "fetchRawContent_finish net w' t = (r', w1')"
    by (cases "fetchRawContent_finish net w' t") auto
  from a b have "r = r'" using raw_finish_fst [of net w t w'] by simp
  with a b show ?thesis by (simp add: metadata_finish split: sum.splits)
qed

lemma mapAccum_fst_indep:
  assumes "\<And>s s' x. fst (f s x) = fst (f s' x)"
  shows "fst (mapAccum f s xs) = map (\<lambda>x. fst (f s0 x)) xs"
proof (induction xs arbitrary: s)
  case Nil
  then show ?case by simp
next
  case (Cons x xs)
  obtain y s1 where f: "f s x = (y, s1)" by (cases "f s x") auto
  obtain ys s2 where r: "mapAccum f s1 xs = (ys, s2)" by (cases "mapAccum f s1 xs") auto
  have "y = fst (f s0 x)" using assms [of s x s0] f by simp
  moreover have "ys = map (\<lambda>x. fst (f s0 x)) xs" using Cons.IH [of s1] r by simp
  ultimately show ?case using f r by simp
qed

lemma mapAccum_starts:
  assumes "sameLookups w0 w"
  shows "fst (mapAccum (\<lambda>w sp. fetchSkillMetadataRaw_start w d sp) w sps)
           = map (\<lambda>sp. fst (fetchSkillMetadataRaw_start w0 d sp)) sps
       \<and> sameLookups w0 (snd (mapAccum (\<lambda>w sp. fetchSkillMetadataRaw_start w d sp) w sps))"
  using assms
proof (induction sps arbitrary: w)
  case Nil
  then show ?case by simp
next
  case (Cons sp sps)
  let ?f = "\<lambda>w sp. fetchSkillMetadataRaw_start w d sp"
  obtain y w1 where f: "?f w sp = (y, w1)" by (cases "?f w sp") auto
  obtain ys w2 where r: "mapAccum ?f w1 sps = (ys, w2)" by (cases "mapAccum ?f w1 sps") auto
  have "sameLookups w w1"
    using f raw_start_same [of w "owner d" "repo d" "sp @ ''/SKILL.md''" "branch d"]
    by (simp add: fetchSkillMetadataRaw_start_def)
  with Cons.prems have s1: "sameLookups w0 w1" by (rule sameLookups_trans)
  have "y = fst (?f w0 sp)"
    using f raw_start_fst [OF Cons.prems, of "owner d" "repo d" "sp @ ''/SKILL.md''" "branch d"]
    by (simp add: fetchSkillMetadataRaw_start_def)
  moreover have "ys = map (\<lambda>sp. fst (?f w0 sp)) sps \<and> sameLookups w0 w2"
    using Cons.IH [OF s1] r by simp
  ultimately show ?case using f r by simp
qed

lemma map_filter_id_map: "List.map_filter id (map f xs) = List.map_filter f xs"
  by (induction xs) (auto simp: List.map_filter_def)

lemma zip_map_self: "zip xs (map h xs) = map (\<lambda>x. (x, h x)) xs"
  by (induction xs) auto

lemma listed_resolution:
  assumes ns: "singleSkill d \<noteq> Some True"
      and tr: "fetchRepoTree net w (owner d) (repo d) (branch d) = (Inr t, w1)"
  shows "fst (fetchSkillsFromRepo net w d)
     = Inr (List.map_filter (\<lambda>sp. fst (fetchSkillMetadataRaw net w1 d (skillNameOf sp) sp))
              (skillPaths d t))"
proof -
  let ?start = "\<lambda>w sp. fetchSkillMetadataRaw_start w d sp"
  let ?fin = "\<lambda>w (sp, t). fetchSkillMetadataRaw_finish net w d (skillNameOf sp) sp t"
  let ?sps = "skillPaths d t"
  obtain tt w0 where st: "fetchRepoTree_start w (owner d) (repo d) (branch d) = (tt, w0)"
    by (cases "fetchRepoTree_start w (owner d) (repo d) (branch d)") auto
  with tr have fin: "fetchRepoTree_finish net w0 (owner d) (repo d) (branch d) tt = (Inr t, w1)"
    by (simp add: fetchRepoTree_def)
  obtain ts w2 where m: "mapAccum ?start w1 ?sps = (ts, w2)"
    by (cases "mapAccum ?start w1 ?sps") auto
  have ts: "ts = map (\<lambda>sp. fst (?start w1 sp)) ?sps"
    using mapAccum_starts [of w1 w1 d ?sps] sameLookups_refl [of w1] m by simp
  have indep: "\<And>s s' x. fst (?fin s x) = fst (?fin s' x)"
    by (auto simp: metadata_finish_fst split: prod.splits)
  have "fst (mapAccum ?fin w2 (zip ?sps ts)) = map (\<lambda>x. fst (?fin w1 x)) (zip ?sps ts)"
    by (rule mapAccum_fst_indep [OF indep])
  also have "\<dots> = map (\<lambda>sp. fst (fetchSkillMetadataRaw_finish net w1 d (skillNameOf sp) sp (fst (?start w1 sp)))) ?sps"
    unfolding ts zip_map_self by (simp add: comp_def)
  also have "\<dots> = map (\<lambda>sp. fst (fetchSkillMetadataRaw net w1 d (skillNameOf sp) sp)) ?sps"
  proof (rule map_cong [OF refl])
    fix sp
    obtain y w3 where y: "?start w1 sp = (y, w3)" by (cases "?start w1 sp") auto
    then show "fst (fetchSkillMetadataRaw_finish net w1 d (skillNameOf sp) sp (fst (?start w1 sp)))
        = fst (fetchSkillMetadataRaw net w1 d (skillNameOf sp) sp)"
      using metadata_finish_fst [of net w1 d "skillNameOf sp" sp y w3]
      by (simp add: fetchSkillMetadataRaw_def)
  qed
  finally have res: "fst (mapAccum ?fin w2 (zip ?sps ts))
      = map (\<lambda>sp. fst (fetchSkillMetadataRaw net w1 d (skillNameOf sp) sp)) ?sps" .
  have "fst (fetchSkillsFromRepo net w d) = Inr (List.map_filter id (fst (mapAccum ?fin w2 (zip ?sps ts))))"
    using ns st fin m
    by (simp add: fetchSkillsFromRepo_def startRepo_def continueRepo_def finishRepo_def
        split: prod.splits)
  then show ?thesis by (simp add: res map_filter_id_map)
qed

lemma ex_resolve_skills:
  "fst (fetchSkillsFromRepo exNet exClient exSkills)
     = Inr [makeSkill exSkills ''a'' ''skills/a'' ''---\<newline>name: Alpha\<newline>---\<newline>Body'',
            makeSkill exSkills ''b'' ''skills/b'' []]"
proof -
  have o: "owner exSkills = ''o''" "repo exSkills = ''r''" "branch exSkills = ''main''"
    "singleSkill exSkills = None"
    by (simp_all add: exSkills_def)
  have t: "truncated exTree = False" by (simp add: exTree_def)
  show ?thesis
    by (simp add: resolver_defs o t ex_skillPaths ex_names exNet_def exClient_def exOk_def
        exNotFound_def)
qed

lemma produced_skill:
  assumes "fst (fetchSkillMetadataRaw net w d (skillNameOf sp) sp) = Some s"
  shows "skillPath s = sp \<and> source s = d
     \<and> (\<exists>content. fullContent s = Some content
           \<and> name s = (if md_name (fst (parseSkillMd content)) \<noteq> []
                        then md_name (fst (parseSkillMd content)) else skillNameOf sp))"
proof -
  from assms obtain content where "s = makeSkill d (skillNameOf sp) sp content"
    using metadata_raw_skill by blast
  then show ?thesis by (simp add: makeSkill_fields makeSkill_name)
qed

text \<open>
  Claim C5.  From a listing, a descriptor that is not a single skill selects exactly the
  entries that are blobs, whose path is the descriptor's path, a slash and more, and whose
  last segment is \<open>SKILL.md\<close> (the path ends in \<open>/SKILL.md\<close>), in the order of the listing.
  The directory of a selected entry is its path without the trailing \<open>/SKILL.md\<close>.  The
  resolution returns, in that order, the skills of the directories whose manifest is
  fetched, each with its directory as \<open>skillPath\<close> and with the manifest's name or else the
  fallback name; the fallback name of a directory that does not end in a slash is what
  follows its last slash.  For the listing \<open>skills/a/SKILL.md\<close>, \<open>skills/b/SKILL.md\<close>,
  \<open>other/SKILL.md\<close> and the path \<open>skills\<close>, the directories are \<open>skills/a\<close> and \<open>skills/b\<close>
  and the resolution returns their two skills.
\<close>

theorem skill_selection:
  "skillMdFiles d t
     = filter (\<lambda>item. item_type item = Blob
                    \<and> (\<exists>rest. item_path item = path d @ ''/'' @ rest)
                    \<and> last (split (CHR ''/'') (item_path item)) = ''SKILL.md'') (tree t)
   \<and> map (\<lambda>sp. sp @ ''/SKILL.md'') (skillPaths d t) = map item_path (skillMdFiles d t)
   \<and> (singleSkill d \<noteq> Some True \<and> fetchRepoTree net w (owner d) (repo d) (branch d) = (Inr t, w1)
        \<longrightarrow> fst (fetchSkillsFromRepo net w d)
              = Inr (List.map_filter (\<lambda>sp. fst (fetchSkillMetadataRaw net w1 d (skillNameOf sp) sp))
                       (skillPaths d t)))
   \<and> (fst (fetchSkillMetadataRaw net w1 d (skillNameOf sp) sp) = Some s
        \<longrightarrow> skillPath s = sp
            \<and> (\<exists>content. fullContent s = Some content
                  \<and> name s = (if md_name (fst (parseSkillMd content)) \<noteq> []
                               then md_name (fst (parseSkillMd content)) else skillNameOf sp)))
   \<and> (sp \<noteq> [] \<and> last sp \<noteq> CHR ''/''
        \<longrightarrow> CHR ''/'' \<notin> set (skillNameOf sp)
            \<and> (sp = skillNameOf sp \<or> (\<exists>pre. sp = pre @ ''/'' @ skillNameOf sp)))
   \<and> skillPaths exSkills exTree = [''skills/a'', ''skills/b'']
   \<and> fst (fetchSkillsFromRepo exNet exClient exSkills)
       = Inr [makeSkill exSkills ''a'' ''skills/a'' ''---\<newline>name: Alpha\<newline>---\<newline>Body'',
              makeSkill exSkills ''b'' ''skills/b'' []]"
  using skillMdFiles_selection [of d t] skillPaths_directories [of d t]
    listed_resolution [of d net w t w1] produced_skill [of net w1 d sp s]
    skillNameOf_basename [of sp] ex_skillPaths ex_resolve_skills
  by blast

theorem skill_selection_witness:
  "singleSkill exSkills \<noteq> Some True
   \<and> fst (fetchRepoTree exNet exClient ''o'' ''r'' ''main'') = Inr exTree
   \<and> map skillPath
        (List.map_filter
           (\<lambda>sp. fst (fetchSkillMetadataRaw exNet (snd (fetchRepoTree exNet exClient ''o'' ''r'' ''main''))
                         exSkills (skillNameOf sp) sp))
           (skillPaths exSkills exTree))
       = [''skills/a'', ''skills/b'']
   \<and> skillNameOf ''skills/a'' = ''a''"
proof -
  have o: "owner exSkills = ''o''" "repo exSkills = ''r''" "branch exSkills = ''main''"
    "singleSkill exSkills \<noteq> Some True"
    by (simp_all add: exSkills_def)
  have t: "truncated exTree = False" by (simp add: exTree_def)
  have f: "fst (fetchRepoTree exNet exClient ''o'' ''r'' ''main'') = Inr exTree"
    by (simp add: fetchRepoTree_def resolver_defs t exNet_def exClient_def exOk_def)
  then have p: "fetchRepoTree exNet exClient (owner exSkills) (repo exSkills) (branch exSkills)
      = (Inr exTree, snd (fetchRepoTree exNet exClient ''o'' ''r'' ''main''))"
    by (simp add: o prod_eq_iff)
  have "fst (fetchSkillsFromRepo exNet exClient exSkills)
      = Inr (List.map_filter
           (\<lambda>sp. fst (fetchSkillMetadataRaw exNet (snd (fetchRepoTree exNet exClient ''o'' ''r'' ''main''))
                         exSkills (skillNameOf sp) sp))
           (skillPaths exSkills exTree))"
    using skill_selection [of exSkills exTree exNet exClient
        "snd (fetchRepoTree exNet exClient ''o'' ''r'' ''main'')"] o(4) p
    by blast
  then have "List.map_filter
           (\<lambda>sp. fst (fetchSkillMetadataRaw exNet (snd (fetchRepoTree exNet exClient ''o'' ''r'' ''main''))
                         exSkills (skillNameOf sp) sp))
           (skillPaths exSkills exTree)
      = [makeSkill exSkills ''a'' ''skills/a'' ''---\<newline>name: Alpha\<newline>---\<newline>Body'',
         makeSkill exSkills ''b'' ''skills/b'' []]"
    by (simp add: ex_resolve_skills)
  then show ?thesis using o(4) f by (simp add: makeSkill_fields ex_names)
qed

section \<open>The parser of the installed-skills scan\<close>

lemma installed_multiline_block:
  "frontmatterMatchInstalled ''---\<newline>description:\<newline>  Line one\<newline>  Line two\<newline>---\<newline>''
     = Some ''description:\<newline>  Line one\<newline>  Line two''"
  by (simp add: frontmatterMatchInstalled_def dashes_def startsWith_def)

lemma installed_multiline_name:
  "searchKeyM ''name:'' True ''description:\<newline>  Line one\<newline>  Line two'' = None"
  by (simp add: startsWith_def isLineTerminator_def)

lemma installed_multiline_description:
  "searchKeyM ''description:'' True ''description:\<newline>  Line one\<newline>  Line two'' = Some ''Line one''"
  by (simp add: startsWith_def valueM_def isSpace_def isLineTerminator_def)

lemma installed_nameless_block:
  "frontmatterMatchInstalled ''---\<newline>name:\<newline>description: x\<newline>---\<newline>''
     = Some ''name:\<newline>description: x''"
  by (simp add: frontmatterMatchInstalled_def dashes_def startsWith_def)

lemma installed_nameless_name:
  "searchKeyM ''name:'' True ''name:\<newline>description: x'' = Some ''description: x''"
  by (simp add: startsWith_def valueM_def isSpace_def isLineTerminator_def)

lemma parser_nameless:
  "md_name (fst (parseSkillMd ''---\<newline>name:\<newline>description: x\<newline>---\<newline>'')) = []"
proof -
  have m: "frontmatterMatch ''---\<newline>name:\<newline>description: x\<newline>---\<newline>''
      = Some (''name:\<newline>description: x'', [])"
    by (simp add: frontmatterMatch_def dashes_def startsWith_def closeDelim_def)
  have k: "keyMatch ''name:'' = Some (''name'', [])"
    "keyMatch ''description: x'' = Some (''description'', ''x'')"
    by (simp_all add: keyMatch_def isWordChar_def isSpace_def isLineTerminator_def)
  have t: "trim [] = []" "trim ''x'' = ''x''" by (simp_all add: trim_def isSpace_def)
  have "parseYamlFrontmatter ''name:\<newline>description: x'' = emptyMetadata\<lparr>md_description := ''x''\<rparr>"
    by (simp add: parseYamlFrontmatter_def frontmatterStep_def commitMultiline_def k t
        setMetadataValue_def)
  with m show ?thesis by (simp add: parseSkillMd_def emptyMetadata_def)
qed

text \<open>
  Claim C6 fails on the code.  For the manifest of the specification with a description of
  two continuation lines, the parser of the installed-skills scan finds the description
  \<open>Line one\<close> where the manifest parser finds \<open>Line one Line two\<close>.  For a header with an
  empty \<open>name:\<close> line followed by \<open>description: x\<close>, the scan's parser finds the name
  \<open>description: x\<close> where the manifest parser finds no name.
\<close>

theorem installed_parser_differs:
  "parseSkillMdMetadata ''---\<newline>description:\<newline>  Line one\<newline>  Line two\<newline>---\<newline>''
     = (None, Some ''Line one'')
   \<and> md_description (fst (parseSkillMd
         ''---\<newline>description:\<newline>  Line one\<newline>  Line two\<newline>---\<newline>''))
     = ''Line one Line two''
   \<and> fst (parseSkillMdMetadata ''---\<newline>name:\<newline>description: x\<newline>---\<newline>'')
     = Some ''description: x''
   \<and> md_name (fst (parseSkillMd ''---\<newline>name:\<newline>description: x\<newline>---\<newline>'')) = []"
proof -
  have t: "trim ''Line one'' = ''Line one''" "trim ''description: x'' = ''description: x''"
    by (simp_all add: trim_def isSpace_def)
  have a: "parseSkillMdMetadata ''---\<newline>description:\<newline>  Line one\<newline>  Line two\<newline>---\<newline>''
     = (None, Some ''Line one'')"
    by (simp only: parseSkillMdMetadata_def installed_multiline_block installed_multiline_name
        installed_multiline_description t option.case option.map)
  have b: "fst (parseSkillMdMetadata ''---\<newline>name:\<newline>description: x\<newline>---\<newline>'')
     = Some ''description: x''"
    by (simp only: parseSkillMdMetadata_def installed_nameless_block installed_nameless_name t
        option.case option.map fst_conv)
  show ?thesis
    by (intro conjI) (rule a, rule multiline_example, rule b, rule parser_nameless)
qed

section \<open>Idempotence of a resolution under the cache\<close>


















































section \<open>Resolution of a single skill\<close>

lemma eol_other: "c \<noteq> CHR 0x0A \<Longrightarrow> c \<noteq> CHR 0x0D \<Longrightarrow> eol (c # cs) = None"
  by simp







lemma skillNameOf_segments:
  "skillNameOf p = (if last (split (CHR ''/'') p) \<noteq> [] then last (split (CHR ''/'') p) else p)"
  by (simp add: skillNameOf_def)










end
